theory Spec2Isabelle
  imports Complex_Main
begin

section \<open>Errors, float64 arithmetic and slices\<close>

text \<open>
  The library ends the process (\<^verbatim>\<open>os.Exit(1)\<close>) at every contract violation it
  detects; the kinds below name those exits.  \<open>RuntimePanic\<close> is the Go runtime's own
  fault: an index outside a slice, a negative length given to \<^verbatim>\<open>make\<close>, a nil
  pointer.
\<close>

datatype error =
  ShapeMismatch | IndexOutOfRange | InvalidArgument | DivisionByZero | RuntimePanic

text \<open>
  The element type \<^verbatim>\<open>float64\<close> and its arithmetic are parameters of the model: a
  record of the operations the library uses.  Every general theorem below holds for any
  such record, hence for IEEE-754 binary64 with its rounding.  Go's \<^verbatim>\<open>a != b\<close> on
  floats is \<open>\<not> feq F a b\<close>.

  Go's \<^verbatim>\<open>int\<close> has 64 bits and its arithmetic wraps around.  Except in
  \<^verbatim>\<open>Reshape\<close>, the sums and products below are taken in \<open>int\<close> without wrap-around,
  which is what Go computes as long as no value leaves \<open>[-2^63, 2^63)\<close>.  Offsets into
  an existing slice and sizes taken from one stay in that range.  Dimensions that a
  caller passes to \<^verbatim>\<open>New\<close>, \<^verbatim>\<open>FromData\<close> or \<^verbatim>\<open>Reshape\<close>, and the size of the
  result of \<^verbatim>\<open>Dot\<close>, which no slice bounds, can leave it.  \<^verbatim>\<open>Reshape\<close> is modelled
  with the wrap-around \<open>wrap64\<close>.  The models of \<^verbatim>\<open>New\<close> and \<^verbatim>\<open>FromData\<close> are Go's
  when the products of the dimensions, doubled for the capacity, stay below \<open>2^63\<close>;
  the theorem on \<^verbatim>\<open>Dot\<close> states that bound.
\<close>

definition wrap64 :: "int \<Rightarrow> int" where
  "wrap64 x = (x + 2 ^ 63) mod 2 ^ 64 - 2 ^ 63"

record 'a float64_ops =
  fzero :: 'a
  fadd :: "'a \<Rightarrow> 'a \<Rightarrow> 'a"
  fsub :: "'a \<Rightarrow> 'a \<Rightarrow> 'a"
  fmul :: "'a \<Rightarrow> 'a \<Rightarrow> 'a"
  fdiv :: "'a \<Rightarrow> 'a \<Rightarrow> 'a"
  feq :: "'a \<Rightarrow> 'a \<Rightarrow> bool"
  fsqrt :: "'a \<Rightarrow> 'a"
  float64 :: "int \<Rightarrow> 'a"

text \<open>A value is a NaN when it differs from itself, as \<^verbatim>\<open>math.IsNaN\<close> tests it.\<close>

definition isNaN :: "'a float64_ops \<Rightarrow> 'a \<Rightarrow> bool" where
  "isNaN F x \<longleftrightarrow> \<not> feq F x x"

text \<open>\<^verbatim>\<open>xs[i]\<close>, \<^verbatim>\<open>xs[i] = v\<close> and \<^verbatim>\<open>make([]float64, n, cap)\<close>, with their panics.\<close>

definition index :: "'a list \<Rightarrow> int \<Rightarrow> error + 'a" where
  "index xs i = (if 0 \<le> i \<and> i < int (length xs) then Inr (xs ! nat i) else Inl RuntimePanic)"

definition assign :: "'a list \<Rightarrow> int \<Rightarrow> 'a \<Rightarrow> error + 'a list" where
  "assign xs i v =
     (if 0 \<le> i \<and> i < int (length xs) then Inr (xs[nat i := v]) else Inl RuntimePanic)"

definition make_slice :: "'a float64_ops \<Rightarrow> int \<Rightarrow> int \<Rightarrow> error + 'a list" where
  "make_slice F n cap =
     (if n < 0 \<or> cap < n then Inl RuntimePanic else Inr (replicate (nat n) (fzero F)))"

text \<open>
  \<^verbatim>\<open>for i := 0; i < n; i++ { body }\<close> over a state, stopping at the first failure.
\<close>

fun for_each :: "nat list \<Rightarrow> (int \<Rightarrow> 's \<Rightarrow> error + 's) \<Rightarrow> 's \<Rightarrow> error + 's" where
  "for_each [] body s = Inr s"
| "for_each (k # ks) body s =
     (case body (int k) s of Inl e \<Rightarrow> Inl e | Inr s' \<Rightarrow> for_each ks body s')"

definition for_range :: "int \<Rightarrow> (int \<Rightarrow> 's \<Rightarrow> error + 's) \<Rightarrow> 's \<Rightarrow> error + 's" where
  "for_range n body s = for_each [0..<nat n] body s"

text \<open>Sequencing of fallible steps: the first failure ends the call.\<close>

definition and_then :: "error + 'a \<Rightarrow> ('a \<Rightarrow> error + 'b) \<Rightarrow> error + 'b" where
  "and_then x f = (case x of Inl e \<Rightarrow> Inl e | Inr v \<Rightarrow> f v)"

subsection \<open>An idealised float64 for evaluating the model\<close>

text \<open>
  Finite values are exact reals (no rounding, one zero), with the two infinities and
  NaN following IEEE-754.  It is used only to run the model on small inputs whose
  float64 arithmetic is exact.
\<close>

datatype f64 = Fin real | PInf | NInf | NaN

fun f64_sgn :: "f64 \<Rightarrow> int" where
  "f64_sgn (Fin a) = (if a < 0 then -1 else if a = 0 then 0 else 1)"
| "f64_sgn PInf = 1"
| "f64_sgn NInf = -1"
| "f64_sgn NaN = 0"

definition f64_inf :: "int \<Rightarrow> f64" where
  "f64_inf s = (if s = 0 then NaN else if 0 < s then PInf else NInf)"

fun f64_neg :: "f64 \<Rightarrow> f64" where
  "f64_neg (Fin a) = Fin (- a)"
| "f64_neg PInf = NInf"
| "f64_neg NInf = PInf"
| "f64_neg NaN = NaN"

fun f64_add :: "f64 \<Rightarrow> f64 \<Rightarrow> f64" where
  "f64_add (Fin a) (Fin b) = Fin (a + b)"
| "f64_add NaN y = NaN"
| "f64_add x NaN = NaN"
| "f64_add PInf NInf = NaN"
| "f64_add NInf PInf = NaN"
| "f64_add PInf y = PInf"
| "f64_add NInf y = NInf"
| "f64_add (Fin a) y = y"

definition f64_sub :: "f64 \<Rightarrow> f64 \<Rightarrow> f64" where
  "f64_sub x y = f64_add x (f64_neg y)"

fun f64_mul :: "f64 \<Rightarrow> f64 \<Rightarrow> f64" where
  "f64_mul (Fin a) (Fin b) = Fin (a * b)"
| "f64_mul NaN y = NaN"
| "f64_mul x NaN = NaN"
| "f64_mul x y = f64_inf (f64_sgn x * f64_sgn y)"

fun f64_div :: "f64 \<Rightarrow> f64 \<Rightarrow> f64" where
  "f64_div (Fin a) (Fin b) = (if b = 0 then f64_inf (f64_sgn (Fin a)) else Fin (a / b))"
| "f64_div NaN y = NaN"
| "f64_div x NaN = NaN"
| "f64_div (Fin a) y = Fin 0"
| "f64_div x (Fin b) = f64_inf (f64_sgn x * (if b < 0 then -1 else 1))"
| "f64_div x y = NaN"

fun f64_eq :: "f64 \<Rightarrow> f64 \<Rightarrow> bool" where
  "f64_eq (Fin a) (Fin b) = (a = b)"
| "f64_eq PInf PInf = True"
| "f64_eq NInf NInf = True"
| "f64_eq x y = False"

fun f64_sqrt :: "f64 \<Rightarrow> f64" where
  "f64_sqrt (Fin a) = (if a < 0 then NaN else Fin (sqrt a))"
| "f64_sqrt PInf = PInf"
| "f64_sqrt NInf = NaN"
| "f64_sqrt NaN = NaN"

definition ideal :: "f64 float64_ops" where
  "ideal = \<lparr>fzero = Fin 0, fadd = f64_add, fsub = f64_sub, fmul = f64_mul, fdiv = f64_div,
     feq = f64_eq, fsqrt = f64_sqrt, float64 = (\<lambda>n. Fin (of_int n))\<rparr>"

section \<open>The Mat object\<close>

text \<open>\<^verbatim>\<open>type Mat struct { r, c int; vals []float64 }\<close>\<close>

record 'a Mat =
  r :: int
  c :: int
  vals :: "'a list"

text \<open>
  The shape invariant of the data model: both dimensions are non-negative and the
  backing slice holds exactly \<open>r * c\<close> values.
\<close>

definition shaped :: "'a Mat \<Rightarrow> bool" where
  "shaped m \<longleftrightarrow> 0 \<le> r m \<and> 0 \<le> c m \<and> int (length (vals m)) = r m * c m"

subsection \<open>Element access\<close>

text \<open>\<^verbatim>\<open>func (m *Mat) At(r, c int) float64 { return m.vals[r*m.c+c] }\<close>\<close>

definition At :: "'a Mat \<Rightarrow> int \<Rightarrow> int \<Rightarrow> error + 'a" where
  "At m i j = index (vals m) (i * c m + j)"

text \<open>
  \<^verbatim>\<open>func (m *Mat) Set(r, c int, val float64) *Mat { m.vals[r*m.r+c] = val; return m }\<close>:
  the offset is computed with the row count \<^verbatim>\<open>m.r\<close>.  The result is the receiver after
  the write.
\<close>

definition Set :: "'a Mat \<Rightarrow> int \<Rightarrow> int \<Rightarrow> 'a \<Rightarrow> error + 'a Mat" where
  "Set m i j val =
     (case assign (vals m) (i * r m + j) val of
        Inl e \<Rightarrow> Inl e
      | Inr vs \<Rightarrow> Inr (m\<lparr>vals := vs\<rparr>))"

text \<open>\<^verbatim>\<open>v.vals[i] = e\<close> on a Mat.\<close>

definition put :: "'a Mat \<Rightarrow> int \<Rightarrow> 'a \<Rightarrow> error + 'a Mat" where
  "put v i e = and_then (assign (vals v) i e) (\<lambda>vs. Inr (v\<lparr>vals := vs\<rparr>))"

subsection \<open>Construction\<close>

text \<open>
  \<^verbatim>\<open>New(dims ...int)\<close>: zero to three integers; the slice is zero-filled.  Capacity is
  not part of the model beyond the panic of \<^verbatim>\<open>make\<close> when it is below the length:
  no value the library computes depends on it.  The length \<open>x * y\<close> and the capacity
  \<open>2 * x * y\<close> are Go's when \<open>2 * x * y < 2^63\<close>; beyond that Go's products wrap
  around and \<^verbatim>\<open>make\<close> may panic where this model allocates.
\<close>

fun New :: "'a float64_ops \<Rightarrow> int list \<Rightarrow> error + 'a Mat" where
  "New F [] = and_then (make_slice F 0 0) (\<lambda>v. Inr \<lparr>r = 0, c = 0, vals = v\<rparr>)"
| "New F [x] = and_then (make_slice F (x * x) (2 * x * x)) (\<lambda>v. Inr \<lparr>r = x, c = x, vals = v\<rparr>)"
| "New F [x, y] = and_then (make_slice F (x * y) (2 * x * y)) (\<lambda>v. Inr \<lparr>r = x, c = y, vals = v\<rparr>)"
| "New F [x, y, z] = and_then (make_slice F (x * y) z) (\<lambda>v. Inr \<lparr>r = x, c = y, vals = v\<rparr>)"
| "New F dims = Inl InvalidArgument"

subsection \<open>Column extraction, equality, transpose, product\<close>

text \<open>
  \<^verbatim>\<open>Col(x)\<close>: the bounds test, a fresh \<^verbatim>\<open>New(m.r, 1)\<close>, then one of two copy
  loops, reading \<^verbatim>\<open>m.vals[r*m.c+x]\<close> or \<^verbatim>\<open>m.vals[r*m.c+(m.c+x)]\<close>.
\<close>

definition Col :: "'a float64_ops \<Rightarrow> 'a Mat \<Rightarrow> int \<Rightarrow> error + 'a Mat" where
  "Col F m x =
     (if x \<ge> c m \<or> x < - c m then Inl IndexOutOfRange
      else and_then (New F [r m, 1]) (\<lambda>v.
        if x \<ge> 0 then
          for_range (r m) (\<lambda>i v. and_then (index (vals m) (i * c m + x)) (put v i)) v
        else
          for_range (r m) (\<lambda>i v. and_then (index (vals m) (i * c m + (c m + x))) (put v i)) v))"

text \<open>\<^verbatim>\<open>Row(x)\<close>, the same over a row.\<close>

definition Row :: "'a float64_ops \<Rightarrow> 'a Mat \<Rightarrow> int \<Rightarrow> error + 'a Mat" where
  "Row F m x =
     (if x \<ge> r m \<or> x < - r m then Inl IndexOutOfRange
      else and_then (New F [1, c m]) (\<lambda>v.
        if x \<ge> 0 then
          for_range (c m) (\<lambda>i v. and_then (index (vals m) (x * c m + i)) (put v i)) v
        else
          for_range (c m) (\<lambda>i v. and_then (index (vals m) ((r m + x) * c m + i)) (put v i)) v))"

text \<open>
  \<^verbatim>\<open>Equals(n)\<close>: rows, then columns, then the loop over \<^verbatim>\<open>i < m.r*m.c\<close> that
  returns false at the first \<^verbatim>\<open>m.vals[i] != n.vals[i]\<close>.
\<close>

fun equals_loop :: "'a float64_ops \<Rightarrow> 'a list \<Rightarrow> 'a list \<Rightarrow> nat list \<Rightarrow> error + bool" where
  "equals_loop F xs ys [] = Inr True"
| "equals_loop F xs ys (k # ks) =
     (case index xs (int k) of
        Inl e \<Rightarrow> Inl e
      | Inr x \<Rightarrow>
          (case index ys (int k) of
             Inl e \<Rightarrow> Inl e
           | Inr y \<Rightarrow> if \<not> feq F x y then Inr False else equals_loop F xs ys ks))"

definition Equals :: "'a float64_ops \<Rightarrow> 'a Mat \<Rightarrow> 'a Mat \<Rightarrow> error + bool" where
  "Equals F m n =
     (if r m \<noteq> r n then Inr False
      else if c m \<noteq> c n then Inr False
      else equals_loop F (vals m) (vals n) [0..<nat (r m * c m)])"

text \<open>
  \<^verbatim>\<open>copy(dst, src)\<close> overwrites the first \<open>min (len dst) (len src)\<close> elements.
\<close>

definition copy :: "'a list \<Rightarrow> 'a list \<Rightarrow> 'a list" where
  "copy dst src = take (length dst) src @ drop (length src) dst"

definition Copy :: "'a float64_ops \<Rightarrow> 'a Mat \<Rightarrow> error + 'a Mat" where
  "Copy F m = and_then (New F [r m, c m]) (\<lambda>n. Inr (n\<lparr>vals := copy (vals n) (vals m)\<rparr>))"

text \<open>
  \<^verbatim>\<open>T()\<close>: a fresh \<^verbatim>\<open>New(m.c, m.r)\<close> filled in order by a running \<^verbatim>\<open>idx\<close>,
  reading \<^verbatim>\<open>m.vals[j*m.c+i]\<close> for \<open>i\<close> over the columns and \<open>j\<close> over the rows.
\<close>

definition T :: "'a float64_ops \<Rightarrow> 'a Mat \<Rightarrow> error + 'a Mat" where
  "T F m =
     and_then (New F [c m, r m]) (\<lambda>n.
       and_then
         (for_range (c m) (\<lambda>i.
            for_range (r m) (\<lambda>j (n, idx).
              and_then (index (vals m) (j * c m + i)) (\<lambda>e.
                and_then (put n idx e) (\<lambda>n'. Inr (n', idx + 1)))))
          (n, 0))
         (\<lambda>(n, idx). Inr n))"

text \<open>
  \<^verbatim>\<open>Dot(n)\<close>: the inner dimensions must agree; a fresh zero \<^verbatim>\<open>New(m.r, n.c)\<close>
  accumulates \<^verbatim>\<open>o.vals[i*o.c+j] += m.vals[i*m.c+k] * n.vals[k*n.c+j]\<close> in the loops
  over \<open>i\<close>, \<open>j\<close>, \<open>k\<close>.  The result has \<open>m.r * n.c\<close> elements, a size that the
  operands do not bound when the inner dimension is 0; as for \<^verbatim>\<open>New\<close>, the model is
  Go's when \<open>2 * m.r * n.c < 2^63\<close>.
\<close>

definition Dot :: "'a float64_ops \<Rightarrow> 'a Mat \<Rightarrow> 'a Mat \<Rightarrow> error + 'a Mat" where
  "Dot F m n =
     (if c m \<noteq> r n then Inl ShapeMismatch
      else and_then (New F [r m, c n]) (\<lambda>o'.
        for_range (r m) (\<lambda>i.
          for_range (c n) (\<lambda>j.
            for_range (c m) (\<lambda>k o'.
              and_then (index (vals o') (i * c o' + j)) (\<lambda>acc.
                and_then (index (vals m) (i * c m + k)) (\<lambda>x.
                  and_then (index (vals n) (k * c n + j)) (\<lambda>y.
                    put o' (i * c o' + j) (fadd F acc (fmul F x y)))))))) o'))"

subsection \<open>Element-wise arithmetic\<close>

text \<open>
  \<^verbatim>\<open>Add\<close>, \<^verbatim>\<open>Sub\<close>, \<^verbatim>\<open>Mul\<close> and \<^verbatim>\<open>Div\<close> write into the receiver and take an
  \<^verbatim>\<open>interface{}\<close> that may hold the receiver's own pointer (the tests call
  \<^verbatim>\<open>m.Mul(m)\<close>).  So here a \<^verbatim>\<open>*Mat\<close> is an address in a store of Mat objects, the
  loops read both operands through the store at every step, and the call returns the
  updated store with the pointer it returns.
\<close>

type_synonym 'a store = "nat \<Rightarrow> 'a Mat option"

datatype 'a arg = Float64 'a | MatPtr nat | OtherType

definition deref :: "'a store \<Rightarrow> nat \<Rightarrow> error + 'a Mat" where
  "deref \<sigma> p = (case \<sigma> p of None \<Rightarrow> Inl RuntimePanic | Some m \<Rightarrow> Inr m)"

text \<open>\<^verbatim>\<open>m.vals[i] op= v\<close> and \<^verbatim>\<open>m.vals[i] op= v.vals[i]\<close>, one loop step each.\<close>

definition step_scalar :: "('a \<Rightarrow> 'a \<Rightarrow> 'a) \<Rightarrow> nat \<Rightarrow> 'a \<Rightarrow> int \<Rightarrow> 'a store \<Rightarrow> error + 'a store" where
  "step_scalar f p v i \<sigma> =
     and_then (deref \<sigma> p) (\<lambda>m.
       and_then (index (vals m) i) (\<lambda>x.
         and_then (put m i (f x v)) (\<lambda>m'. Inr (\<sigma>(p \<mapsto> m')))))"

definition step_mat :: "('a \<Rightarrow> 'a \<Rightarrow> 'a) \<Rightarrow> nat \<Rightarrow> nat \<Rightarrow> int \<Rightarrow> 'a store \<Rightarrow> error + 'a store" where
  "step_mat f p q i \<sigma> =
     and_then (deref \<sigma> p) (\<lambda>m.
       and_then (deref \<sigma> q) (\<lambda>v.
         and_then (index (vals m) i) (\<lambda>x.
           and_then (index (vals v) i) (\<lambda>y.
             and_then (put m i (f x y)) (\<lambda>m'. Inr (\<sigma>(p \<mapsto> m')))))))"

text \<open>
  The body the four operators share: the type switch on the argument, for a \<^verbatim>\<open>*Mat\<close>
  the two shape tests, then the loop \<^verbatim>\<open>for i := range m.vals\<close>; the receiver is
  returned.
\<close>

definition arith :: "('a \<Rightarrow> 'a \<Rightarrow> 'a) \<Rightarrow> 'a store \<Rightarrow> nat \<Rightarrow> 'a arg \<Rightarrow> error + ('a store \<times> nat)" where
  "arith f \<sigma> p val =
     (case val of
        Float64 v \<Rightarrow>
          and_then (deref \<sigma> p) (\<lambda>m.
            and_then (for_range (int (length (vals m))) (step_scalar f p v) \<sigma>) (\<lambda>\<sigma>'.
              Inr (\<sigma>', p)))
      | MatPtr q \<Rightarrow>
          and_then (deref \<sigma> q) (\<lambda>v.
            and_then (deref \<sigma> p) (\<lambda>m.
              if r v \<noteq> r m then Inl ShapeMismatch
              else if c v \<noteq> c m then Inl ShapeMismatch
              else and_then (for_range (int (length (vals m))) (step_mat f p q) \<sigma>) (\<lambda>\<sigma>'.
                Inr (\<sigma>', p))))
      | OtherType \<Rightarrow> Inl InvalidArgument)"

definition Mul :: "'a float64_ops \<Rightarrow> 'a store \<Rightarrow> nat \<Rightarrow> 'a arg \<Rightarrow> error + ('a store \<times> nat)" where
  "Mul F = arith (fmul F)"

definition Add :: "'a float64_ops \<Rightarrow> 'a store \<Rightarrow> nat \<Rightarrow> 'a arg \<Rightarrow> error + ('a store \<times> nat)" where
  "Add F = arith (fadd F)"

definition Sub :: "'a float64_ops \<Rightarrow> 'a store \<Rightarrow> nat \<Rightarrow> 'a arg \<Rightarrow> error + ('a store \<times> nat)" where
  "Sub F = arith (fsub F)"

definition Div :: "'a float64_ops \<Rightarrow> 'a store \<Rightarrow> nat \<Rightarrow> 'a arg \<Rightarrow> error + ('a store \<times> nat)" where
  "Div F = arith (fdiv F)"

text \<open>
  The older variant of the library takes a \<^verbatim>\<open>*Mat\<close> only and, between the shape
  tests and the loop over \<^verbatim>\<open>i < m.r*m.c\<close>, refuses a divisor with a zero:
  \<^verbatim>\<open>if n.Any(zero) { ... os.Exit(1) }\<close> with \<^verbatim>\<open>zero\<close> testing \<^verbatim>\<open>*i == 0.0\<close>.
\<close>

primrec any_loop :: "('a \<Rightarrow> bool) \<Rightarrow> 'a list \<Rightarrow> bool" where
  "any_loop f [] = False"
| "any_loop f (x # xs) = (if f x then True else any_loop f xs)"

definition Any :: "'a Mat \<Rightarrow> ('a \<Rightarrow> bool) \<Rightarrow> bool" where
  "Any m f = any_loop f (vals m)"

definition Div_v006 :: "'a float64_ops \<Rightarrow> 'a store \<Rightarrow> nat \<Rightarrow> nat \<Rightarrow> error + ('a store \<times> nat)" where
  "Div_v006 F \<sigma> p q =
     and_then (deref \<sigma> p) (\<lambda>m.
       and_then (deref \<sigma> q) (\<lambda>n.
         if r m \<noteq> r n then Inl ShapeMismatch
         else if c m \<noteq> c n then Inl ShapeMismatch
         else if Any n (\<lambda>x. feq F x (fzero F)) then Inl DivisionByZero
         else and_then (for_range (r m * c m) (step_mat (fdiv F) p q) \<sigma>) (\<lambda>\<sigma>'.
           Inr (\<sigma>', p))))"

subsection \<open>Average and standard deviation\<close>

text \<open>
  \<^verbatim>\<open>Avg(args ...int)\<close>: no argument averages the whole slice; two arguments
  \<^verbatim>\<open>(axis, slice)\<close> average a row (axis 0, divided by \<^verbatim>\<open>float64(m.c)\<close>) or a
  column (axis 1, divided by \<^verbatim>\<open>float64(m.r)\<close>).
\<close>

fun Avg :: "'a float64_ops \<Rightarrow> 'a Mat \<Rightarrow> int list \<Rightarrow> error + 'a" where
  "Avg F m [] =
     and_then
       (for_range (int (length (vals m)))
          (\<lambda>i sum. and_then (index (vals m) i) (\<lambda>x. Inr (fadd F sum x))) (fzero F))
       (\<lambda>sum. Inr (fdiv F sum (float64 F (int (length (vals m))))))"
| "Avg F m [axis, slice] =
     (if axis = 0 then
        (if slice \<ge> r m \<or> slice < 0 then Inl IndexOutOfRange
         else and_then
           (for_range (c m)
              (\<lambda>i sum. and_then (index (vals m) (slice * c m + i)) (\<lambda>x. Inr (fadd F sum x)))
              (fzero F))
           (\<lambda>sum. Inr (fdiv F sum (float64 F (c m)))))
      else if axis = 1 then
        (if slice \<ge> c m \<or> slice < 0 then Inl IndexOutOfRange
         else and_then
           (for_range (r m)
              (\<lambda>i sum. and_then (index (vals m) (i * c m + slice)) (\<lambda>x. Inr (fadd F sum x)))
              (fzero F))
           (\<lambda>sum. Inr (fdiv F sum (float64 F (r m)))))
      else Inl InvalidArgument)"
| "Avg F m args = Inl InvalidArgument"

text \<open>
  \<^verbatim>\<open>Std(args ...int)\<close>: the mean from \<^verbatim>\<open>Avg\<close>, then the sum of
  \<^verbatim>\<open>(avg - x) * (avg - x)\<close> over the same elements, then
  \<^verbatim>\<open>math.Sqrt(sum / float64(len(m.vals)))\<close> in all three branches.
\<close>

fun Std :: "'a float64_ops \<Rightarrow> 'a Mat \<Rightarrow> int list \<Rightarrow> error + 'a" where
  "Std F m [] =
     and_then (Avg F m []) (\<lambda>avg.
       and_then
         (for_range (int (length (vals m)))
            (\<lambda>i sum. and_then (index (vals m) i) (\<lambda>x.
               Inr (fadd F sum (fmul F (fsub F avg x) (fsub F avg x))))) (fzero F))
         (\<lambda>sum. Inr (fsqrt F (fdiv F sum (float64 F (int (length (vals m))))))))"
| "Std F m [axis, slice] =
     (if axis = 0 then
        (if slice \<ge> r m \<or> slice < 0 then Inl IndexOutOfRange
         else and_then (Avg F m [axis, slice]) (\<lambda>avg.
           and_then
             (for_range (c m)
                (\<lambda>i sum. and_then (index (vals m) (slice * c m + i)) (\<lambda>x.
                   Inr (fadd F sum (fmul F (fsub F avg x) (fsub F avg x))))) (fzero F))
             (\<lambda>sum. Inr (fsqrt F (fdiv F sum (float64 F (int (length (vals m)))))))))
      else if axis = 1 then
        (if slice \<ge> c m \<or> slice < 0 then Inl IndexOutOfRange
         else and_then (Avg F m [axis, slice]) (\<lambda>avg.
           and_then
             (for_range (r m)
                (\<lambda>i sum. and_then (index (vals m) (i * c m + slice)) (\<lambda>x.
                   Inr (fadd F sum (fmul F (fsub F avg x) (fsub F avg x))))) (fzero F))
             (\<lambda>sum. Inr (fsqrt F (fdiv F sum (float64 F (int (length (vals m)))))))))
      else Inl InvalidArgument)"
| "Std F m args = Inl InvalidArgument"

text \<open>
  The older variant of the library: \<^verbatim>\<open>Std(axis, slice)\<close> checks the axis and the
  index, takes the mean from \<^verbatim>\<open>precheckedAverage\<close>, stores the squared differences
  in a fresh slice \<open>s\<close> of the row's or column's length, sums it and returns
  \<^verbatim>\<open>math.Sqrt(sum / float64(len(s)))\<close>.
\<close>

definition precheckedSum :: "'a float64_ops \<Rightarrow> 'a Mat \<Rightarrow> int \<Rightarrow> int \<Rightarrow> error + 'a" where
  "precheckedSum F m axis slice =
     (if axis = 0 then
        for_range (c m) (\<lambda>i x. and_then (index (vals m) (slice * c m + i)) (\<lambda>e. Inr (fadd F x e)))
          (fzero F)
      else if axis = 1 then
        for_range (r m) (\<lambda>i x. and_then (index (vals m) (i * c m + slice)) (\<lambda>e. Inr (fadd F x e)))
          (fzero F)
      else Inr (fzero F))"

definition precheckedAverage :: "'a float64_ops \<Rightarrow> 'a Mat \<Rightarrow> int \<Rightarrow> int \<Rightarrow> error + 'a" where
  "precheckedAverage F m axis slice =
     and_then (precheckedSum F m axis slice) (\<lambda>sum.
       if axis = 0 then Inr (fdiv F sum (float64 F (c m)))
       else Inr (fdiv F sum (float64 F (r m))))"

definition Std_v006 :: "'a float64_ops \<Rightarrow> 'a Mat \<Rightarrow> int \<Rightarrow> int \<Rightarrow> error + 'a" where
  "Std_v006 F m axis slice =
     (if axis \<noteq> 0 \<and> axis \<noteq> 1 then Inl InvalidArgument
      else if axis = 0 \<and> (slice \<ge> r m \<or> slice < 0) then Inl IndexOutOfRange
      else if axis \<noteq> 0 \<and> axis = 1 \<and> (slice \<ge> c m \<or> slice < 0) then Inl IndexOutOfRange
      else and_then (precheckedAverage F m axis slice) (\<lambda>avg.
        and_then
          (if axis = 0 then
             and_then (make_slice F (c m) (c m)) (\<lambda>s.
               for_range (c m) (\<lambda>i s.
                 and_then (index (vals m) (slice * c m + i)) (\<lambda>x.
                   and_then (assign s i (fsub F avg x)) (\<lambda>s.
                     and_then (index s i) (\<lambda>y. assign s i (fmul F y y))))) s)
           else
             and_then (make_slice F (r m) (r m)) (\<lambda>s.
               for_range (r m) (\<lambda>i s.
                 and_then (index (vals m) (i * c m + slice)) (\<lambda>x.
                   and_then (assign s i (fsub F avg x)) (\<lambda>s.
                     and_then (index s i) (\<lambda>y. assign s i (fmul F y y))))) s))
          (\<lambda>s.
            and_then
              (for_range (int (length s)) (\<lambda>i sum. and_then (index s i) (\<lambda>y. Inr (fadd F sum y)))
                 (fzero F))
              (\<lambda>sum. Inr (fsqrt F (fdiv F sum (float64 F (int (length s)))))))))"

text \<open>
  The specification's words: the population standard deviation of a slice is
  \<open>sqrt(mean((x\<^sub>i - mean)\<^sup>2))\<close>, both means taken over the elements of that slice.
\<close>

definition mean :: "'a float64_ops \<Rightarrow> 'a list \<Rightarrow> 'a" where
  "mean F xs = fdiv F (foldl (fadd F) (fzero F) xs) (float64 F (int (length xs)))"

definition population_std :: "'a float64_ops \<Rightarrow> 'a list \<Rightarrow> 'a" where
  "population_std F xs =
     fsqrt F (mean F (map (\<lambda>x. fmul F (fsub F x (mean F xs)) (fsub F x (mean F xs))) xs))"

subsection \<open>Construction from data\<close>

text \<open>
  \<^verbatim>\<open>FromData(oneOrTwoDSlice interface{}, dims ...int)\<close>.  \<^verbatim>\<open>len(v[0])\<close> panics on
  an empty outer slice; the nested loops write \<^verbatim>\<open>m.vals[i*len(v[0])+j] = v[i][j]\<close>.
\<close>

datatype 'a data = Slice1D "'a list" | Slice2D "'a list list" | OtherData

definition len0 :: "'a list list \<Rightarrow> error + int" where
  "len0 v = (case v of [] \<Rightarrow> Inl RuntimePanic | row # rest \<Rightarrow> Inr (int (length row)))"

definition fill2D :: "'a list list \<Rightarrow> 'a list \<Rightarrow> error + 'a list" where
  "fill2D v vs =
     for_range (int (length v)) (\<lambda>i.
       for_range (int (length (v ! nat i))) (\<lambda>j vs.
         and_then (len0 v) (\<lambda>w. assign vs (i * w + j) (v ! nat i ! nat j)))) vs"

fun FromData :: "'a float64_ops \<Rightarrow> 'a data \<Rightarrow> int list \<Rightarrow> error + 'a Mat" where
  "FromData F (Slice1D v) [] =
     and_then (make_slice F (int (length v)) (int (length v) * 2)) (\<lambda>vs.
       Inr \<lparr>r = 1, c = int (length v), vals = copy vs v\<rparr>)"
| "FromData F (Slice1D v) [a] =
     (if a \<noteq> int (length v) then Inl ShapeMismatch
      else and_then (make_slice F a (a * 2)) (\<lambda>vs. Inr \<lparr>r = a, c = 1, vals = copy vs v\<rparr>))"
| "FromData F (Slice1D v) [a, b] =
     (if a * b \<noteq> int (length v) then Inl ShapeMismatch
      else and_then (make_slice F (a * b) (a * b * 2)) (\<lambda>vs.
        Inr \<lparr>r = a, c = b, vals = copy vs v\<rparr>))"
| "FromData F (Slice1D v) dims = Inl InvalidArgument"
| "FromData F (Slice2D v) [] =
     and_then (len0 v) (\<lambda>w.
       and_then (make_slice F (int (length v) * w) (int (length v) * w * 2)) (\<lambda>vs.
         and_then (fill2D v vs) (\<lambda>vs. Inr \<lparr>r = int (length v), c = w, vals = vs\<rparr>)))"
| "FromData F (Slice2D v) [a] =
     and_then (len0 v) (\<lambda>w.
       if a * 2 \<noteq> int (length v) * w then Inl ShapeMismatch
       else and_then (make_slice F (a * a) (a * a * 2)) (\<lambda>vs.
         and_then (fill2D v vs) (\<lambda>vs. Inr \<lparr>r = int (length v), c = w, vals = vs\<rparr>)))"
| "FromData F (Slice2D v) [a, b] =
     (if a \<noteq> int (length v) then Inl ShapeMismatch
      else and_then (len0 v) (\<lambda>w.
        if b \<noteq> w then Inl ShapeMismatch
        else and_then (make_slice F (a * b) (a * b * 2)) (\<lambda>vs.
          and_then (fill2D v vs) (\<lambda>vs. Inr \<lparr>r = int (length v), c = w, vals = vs\<rparr>))))"
| "FromData F (Slice2D v) dims = Inl InvalidArgument"
| "FromData F OtherData dims = Inl InvalidArgument"

text \<open>
  The specification's cell of a product: \<open>\<Sum>\<^sub>k m[i][k] * n[k][j]\<close> accumulated from
  \<open>0.0\<close> in increasing \<open>k\<close> with the float addition and multiplication, that is
  \<open>((0.0 + p\<^sub>0) + p\<^sub>1) + \<dots>\<close>.
\<close>

definition dot_cell :: "'a float64_ops \<Rightarrow> 'a Mat \<Rightarrow> 'a Mat \<Rightarrow> nat \<Rightarrow> nat \<Rightarrow> 'a" where
  "dot_cell F m n i j =
     foldl (\<lambda>acc k. fadd F acc
              (fmul F (vals m ! (i * nat (c m) + k)) (vals n ! (k * nat (c n) + j))))
       (fzero F) [0..<nat (c m)]"

subsection \<open>Shape queries and shape-changing operations\<close>

text \<open>
  \<^verbatim>\<open>Reshape(rows, cols)\<close> keeps the slice and replaces the two dimensions when
  \<^verbatim>\<open>rows*cols == m.r*m.c\<close>, both products in Go's wrapping arithmetic.
\<close>

definition Reshape :: "'a Mat \<Rightarrow> int \<Rightarrow> int \<Rightarrow> error + 'a Mat" where
  "Reshape m rows cols =
     (if wrap64 (rows * cols) \<noteq> wrap64 (r m * c m) then Inl ShapeMismatch
      else Inr (m\<lparr>r := rows, c := cols\<rparr>))"

definition Dims :: "'a Mat \<Rightarrow> int \<times> int" where
  "Dims m = (r m, c m)"

text \<open>\<^verbatim>\<open>Vals()\<close>: a fresh slice of the same length, filled by \<^verbatim>\<open>copy\<close>.\<close>

definition Vals :: "'a float64_ops \<Rightarrow> 'a Mat \<Rightarrow> error + 'a list" where
  "Vals F m =
     and_then (make_slice F (int (length (vals m))) (int (length (vals m)))) (\<lambda>s.
       Inr (copy s (vals m)))"

text \<open>
  \<^verbatim>\<open>ToSlice()\<close>: \<^verbatim>\<open>make([][]float64, m.r)\<close>, then for every row a fresh
  \<^verbatim>\<open>make([]float64, m.c)\<close> filled with \<^verbatim>\<open>s[i][j] = m.vals[i*m.c+j]\<close>.
\<close>

definition ToSlice :: "'a float64_ops \<Rightarrow> 'a Mat \<Rightarrow> error + 'a list list" where
  "ToSlice F m =
     and_then (if r m < 0 then Inl RuntimePanic else Inr (replicate (nat (r m)) [])) (\<lambda>s.
       for_range (int (length s)) (\<lambda>i s.
         and_then (make_slice F (c m) (c m)) (\<lambda>row.
           and_then (assign s i row) (\<lambda>s.
             for_range (int (length row)) (\<lambda>j s.
               and_then (index (vals m) (i * c m + j)) (\<lambda>x.
                 and_then (index s i) (\<lambda>row.
                   and_then (assign row j x) (\<lambda>row. assign s i row)))) s))) s)"

text \<open>\<^verbatim>\<open>SetAll(val)\<close>: \<^verbatim>\<open>for i := range m.vals { m.vals[i] = val }\<close>.\<close>

definition SetAll :: "'a Mat \<Rightarrow> 'a \<Rightarrow> error + 'a Mat" where
  "SetAll m val = for_range (int (length (vals m))) (\<lambda>i m'. put m' i val) m"

text \<open>
  \<^verbatim>\<open>AppendRow(v)\<close>.  The branch taken depends on \<^verbatim>\<open>cap(m.vals)\<close>, which the model
  does not track: it is the parameter \<open>cap\<close>.  With too little capacity the values are
  copied element by element into a fresh slice; otherwise \<^verbatim>\<open>append\<close> extends the slice.
\<close>

definition AppendRow :: "'a float64_ops \<Rightarrow> int \<Rightarrow> 'a Mat \<Rightarrow> 'a list \<Rightarrow> error + 'a Mat" where
  "AppendRow F cap m v =
     (if c m \<noteq> int (length v) then Inl ShapeMismatch
      else and_then
        (if cap < int (length (vals m)) + int (length v) then
           and_then (make_slice F (int (length (vals m)) + int (length v))
                       (int (length (vals m)) + int (length v) * 2)) (\<lambda>newVals.
             and_then (for_range (int (length (vals m)))
                         (\<lambda>i nv. and_then (index (vals m) i) (assign nv i)) newVals) (\<lambda>newVals.
               and_then (for_range (int (length v))
                           (\<lambda>i nv. and_then (index v i) (assign nv (int (length (vals m)) + i)))
                           newVals) (\<lambda>newVals.
                 Inr (m\<lparr>vals := newVals\<rparr>))))
         else Inr (m\<lparr>vals := vals m @ v\<rparr>))
        (\<lambda>m. Inr (m\<lparr>r := r m + 1\<rparr>)))"

text \<open>
  \<^verbatim>\<open>AppendCol(v)\<close>: the rows from \<^verbatim>\<open>ToSlice\<close>, each extended by \<^verbatim>\<open>v[i]\<close>; then
  \<^verbatim>\<open>m.c++\<close>, \<^verbatim>\<open>m.vals = append(m.vals, v...)\<close> and the loops that write
  \<^verbatim>\<open>m.vals[i*m.c+j] = q[i][j]\<close>.
\<close>

definition AppendCol :: "'a float64_ops \<Rightarrow> 'a Mat \<Rightarrow> 'a list \<Rightarrow> error + 'a Mat" where
  "AppendCol F m v =
     (if r m \<noteq> int (length v) then Inl ShapeMismatch
      else and_then (ToSlice F m) (\<lambda>q.
        and_then (for_range (int (length q)) (\<lambda>i q.
                    and_then (index q i) (\<lambda>row.
                      and_then (index v i) (\<lambda>e. assign q i (row @ [e])))) q) (\<lambda>q.
          for_range (r m) (\<lambda>i.
            for_range (c m + 1) (\<lambda>j m'.
              and_then (index q i) (\<lambda>row.
                and_then (index row j) (\<lambda>e. put m' (i * c m' + j) e))))
            (m\<lparr>c := c m + 1, vals := vals m @ v\<rparr>))))"

text \<open>
  \<^verbatim>\<open>Concat(n)\<close>: the rows of the receiver, each extended by the matching row of
  \<open>n\<close>; then \<^verbatim>\<open>m.vals = append(m.vals, n.Vals()...)\<close>, \<^verbatim>\<open>m.c += n.c\<close> and the
  same loops.
\<close>

definition Concat :: "'a float64_ops \<Rightarrow> 'a Mat \<Rightarrow> 'a Mat \<Rightarrow> error + 'a Mat" where
  "Concat F m n =
     (if r m \<noteq> r n then Inl ShapeMismatch
      else and_then (ToSlice F m) (\<lambda>q.
        and_then (Vals F n) (\<lambda>t.
          and_then (ToSlice F n) (\<lambda>rs.
            and_then (for_range (int (length q)) (\<lambda>i q.
                        and_then (index q i) (\<lambda>row.
                          and_then (index rs i) (\<lambda>row'. assign q i (row @ row')))) q) (\<lambda>q.
              for_range (r m) (\<lambda>i.
                for_range (c m + c n) (\<lambda>j m'.
                  and_then (index q i) (\<lambda>row.
                    and_then (index row j) (\<lambda>e. put m' (i * c m' + j) e))))
                (m\<lparr>c := c m + c n, vals := vals m @ t\<rparr>))))))"

text \<open>
  A second variant of the four operators (shown for \<^verbatim>\<open>Add\<close>) starts with
  \<^verbatim>\<open>n := m.Copy()\<close>, works on \<open>n\<close> and returns it.  It writes to no object that
  existed before the call, so its operands are passed as values.
\<close>

datatype 'a operand = Scalar 'a | Matrix "'a Mat" | Unsupported

definition arith_v004 :: "('a \<Rightarrow> 'a \<Rightarrow> 'a) \<Rightarrow> 'a float64_ops \<Rightarrow> 'a Mat \<Rightarrow> 'a operand \<Rightarrow> error + 'a Mat" where
  "arith_v004 f F m val =
     and_then (Copy F m) (\<lambda>n.
       case val of
         Scalar v \<Rightarrow>
           for_range (int (length (vals n)))
             (\<lambda>i n'. and_then (index (vals n') i) (\<lambda>x. put n' i (f x v))) n
       | Matrix v \<Rightarrow>
           if r v \<noteq> r n then Inl ShapeMismatch
           else if c v \<noteq> c n then Inl ShapeMismatch
           else for_range (int (length (vals n)))
                  (\<lambda>i n'. and_then (index (vals n') i) (\<lambda>x.
                     and_then (index (vals v) i) (\<lambda>y. put n' i (f x y)))) n
       | Unsupported \<Rightarrow> Inl InvalidArgument)"

definition Add_v004 :: "'a float64_ops \<Rightarrow> 'a Mat \<Rightarrow> 'a operand \<Rightarrow> error + 'a Mat" where
  "Add_v004 F = arith_v004 (fadd F) F"

text \<open>The elements of row \<open>i\<close> and of column \<open>j\<close>, in order.\<close>

definition row_of :: "'a Mat \<Rightarrow> nat \<Rightarrow> 'a list" where
  "row_of m i = map (\<lambda>j. vals m ! (i * nat (c m) + j)) [0..<nat (c m)]"

definition col_of :: "'a Mat \<Rightarrow> nat \<Rightarrow> 'a list" where
  "col_of m j = map (\<lambda>i. vals m ! (i * nat (c m) + j)) [0..<nat (r m)]"

subsection \<open>Example matrices\<close>

definition m34 :: "f64 Mat" where
  "m34 = \<lparr>r = 3, c = 4, vals = map Fin [1, 2, 3, 4, 5, 6, 7, 8, 9, 10, 11, 12]\<rparr>"

definition m22 :: "f64 Mat" where
  "m22 = \<lparr>r = 2, c = 2, vals = [Fin 1, Fin 2, Fin 3, Fin 4]\<rparr>"

definition m21 :: "f64 Mat" where
  "m21 = \<lparr>r = 2, c = 1, vals = [Fin 5, Fin 6]\<rparr>"

definition m11_nan :: "f64 Mat" where
  "m11_nan = \<lparr>r = 1, c = 1, vals = [NaN]\<rparr>"

definition store0 :: "f64 store" where
  "store0 = (\<lambda>_. None)(0 \<mapsto> m22, 1 \<mapsto> m21)"

definition m12_zero :: "f64 Mat" where
  "m12_zero = \<lparr>r = 1, c = 2, vals = [Fin 0, Fin 2]\<rparr>"

definition m42 :: "f64 Mat" where
  "m42 = \<lparr>r = 4, c = 2, vals = [Fin 0, Fin 4, Fin 0, Fin 0, Fin 0, Fin 0, Fin 0, Fin 0]\<rparr>"

section \<open>Properties\<close>

subsection \<open>Sequencing, loops and cell arithmetic\<close>

lemma and_then_simps [simp]:
  "and_then (Inr v) f = f v" "and_then (Inl e) f = Inl e"
  by (simp_all add: and_then_def)

lemma for_each_append:
  "for_each (ks @ ks') body s = and_then (for_each ks body s) (for_each ks' body)"
  by (induction ks arbitrary: s) (auto split: sum.splits)

lemma for_each_upt_rule:
  assumes "P 0 s"
    and "\<And>k t. k < n \<Longrightarrow> P k t \<Longrightarrow> \<exists>t'. body (int k) t = Inr t' \<and> P (Suc k) t'"
  shows "\<exists>t'. for_each [0..<n] body s = Inr t' \<and> P n t'"
  using assms(2)
proof (induction n)
  case 0
  then show ?case using assms(1) by simp
next
  case (Suc n)
  then obtain t where t: "for_each [0..<n] body s = Inr t" "P n t"
    by (metis less_Suc_eq)
  from Suc.prems[of n t] t(2) obtain t' where "body (int n) t = Inr t'" "P (Suc n) t'"
    by auto
  then show ?case using t by (simp add: for_each_append)
qed

lemma for_range_rule:
  assumes "P 0 s"
    and "\<And>k t. k < n \<Longrightarrow> P k t \<Longrightarrow> \<exists>t'. body (int k) t = Inr t' \<and> P (Suc k) t'"
  shows "\<exists>t'. for_range (int n) body s = Inr t' \<and> P n t'"
  unfolding for_range_def nat_int by (rule for_each_upt_rule[OF assms])

lemma index_nat [simp]: "k < length xs \<Longrightarrow> index xs (int k) = Inr (xs ! k)"
  by (simp add: index_def)

lemma put_nat [simp]: "k < length (vals v) \<Longrightarrow> put v (int k) e = Inr (v\<lparr>vals := (vals v)[k := e]\<rparr>)"
  by (simp add: put_def assign_def)

lemma cell_lt: "i < a \<Longrightarrow> j < b \<Longrightarrow> i * b + j < a * (b::nat)"
proof -
  assume a: "i < a" "j < b"
  have "i * b + j < i * b + b" using a by simp
  also have "\<dots> = Suc i * b" by simp
  also have "\<dots> \<le> a * b" using a by (intro mult_le_mono1) simp
  finally show ?thesis .
qed

lemma New2: "New F [int a, int b] = Inr \<lparr>r = int a, c = int b, vals = replicate (a * b) (fzero F)\<rparr>"
proof -
  have e: "int a * int b = int (a * b)" "2 * int a * int b = 2 * int (a * b)" by simp_all
  show ?thesis by (simp add: make_slice_def e del: of_nat_mult)
qed

lemma for_range_nested_rule:
  assumes init: "P 0 s"
    and step: "\<And>i j t. i < A \<Longrightarrow> j < B \<Longrightarrow> P (i * B + j) t
                 \<Longrightarrow> \<exists>t'. body (int i) (int j) t = Inr t' \<and> P (Suc (i * B + j)) t'"
  shows "\<exists>t'. for_range (int A) (\<lambda>i. for_range (int B) (body i)) s = Inr t' \<and> P (A * B) t'"
proof -
  have "\<exists>t'. for_range (int A) (\<lambda>i. for_range (int B) (body i)) s = Inr t' \<and> P (A * B + 0) t'"
  proof (rule for_range_rule[where P = "\<lambda>i t. P (i * B + 0) t"])
    show "P (0 * B + 0) s" using init by simp
  next
    fix i t assume i: "i < A" and t: "P (i * B + 0) t"
    have "\<exists>t'. for_range (int B) (body (int i)) t = Inr t' \<and> P (i * B + B) t'"
    proof (rule for_range_rule[where P = "\<lambda>j t. P (i * B + j) t"])
      show "P (i * B + 0) t" by (rule t)
    next
      fix j u assume "j < B" "P (i * B + j) u"
      then show "\<exists>t'. body (int i) (int j) u = Inr t' \<and> P (i * B + Suc j) t'"
        using step[OF i] by simp
    qed
    then show "\<exists>t'. for_range (int B) (body (int i)) t = Inr t' \<and> P (Suc i * B + 0) t'"
      by (simp add: add.commute)
  qed
  then show ?thesis by simp
qed

lemma fill_step:
  assumes "q < length zs"
  shows "(map g [0..<q] @ drop q zs)[q := g q] = map g [0..<Suc q] @ drop (Suc q) zs"
  using assms by (simp add: list_update_append flip: Cons_nth_drop_Suc)

lemma shapedE:
  assumes "shaped m"
  obtains a b where "r m = int a" "c m = int b" "length (vals m) = a * b"
  using assms unfolding shaped_def by (metis nat_0_le nat_int of_nat_mult)

subsection \<open>Col\<close>

lemma fill_loop:
  assumes len: "length (vals v0) = a"
    and src: "\<And>i. i < a \<Longrightarrow> h (int i) = int (g i) \<and> g i < length xs"
  shows "for_range (int a) (\<lambda>i v. and_then (index xs (h i)) (put v i)) v0
           = Inr (v0\<lparr>vals := map (\<lambda>i. xs ! g i) [0..<a]\<rparr>)"
proof -
  let ?P = "\<lambda>k v. v = v0\<lparr>vals := map (\<lambda>i. xs ! g i) [0..<k] @ drop k (vals v0)\<rparr>"
  have "\<exists>t'. for_range (int a) (\<lambda>i v. and_then (index xs (h i)) (put v i)) v0 = Inr t'
          \<and> ?P a t'"
  proof (rule for_range_rule)
    show "?P 0 v0" by simp
  next
    fix k t assume k: "k < a" and t: "?P k t"
    have lt: "k < length (vals t)" using k len t by simp
    have "(map (\<lambda>i. xs ! g i) [0..<k] @ drop k (vals v0))[k := xs ! g k]
            = map (\<lambda>i. xs ! g i) [0..<Suc k] @ drop (Suc k) (vals v0)"
      using k len by (simp add: list_update_append flip: Cons_nth_drop_Suc)
    then show "\<exists>t'. and_then (index xs (h (int k))) (put t (int k)) = Inr t' \<and> ?P (Suc k) t'"
      using src[OF k] lt t by simp
  qed
  then show ?thesis using len by simp
qed

text \<open>
  C9.  On a matrix that satisfies the shape invariant, \<^verbatim>\<open>Col(x)\<close> with \<open>x\<close> in
  \<open>[-cols, cols)\<close> returns a fresh rows-by-1 Mat holding column \<open>x\<close> when \<open>x\<close> is
  non-negative and column \<open>cols + x\<close> when it is negative; any other \<open>x\<close> fails with
  IndexOutOfRange.  The witness runs \<^verbatim>\<open>Col(-1)\<close> and \<^verbatim>\<open>Col(3)\<close> on a 3-by-4 matrix.
\<close>

theorem Col_negative_index:
  assumes "shaped m"
  shows "Col F m x =
     (if - c m \<le> x \<and> x < c m
      then Inr \<lparr>r = r m, c = 1,
             vals = map (\<lambda>i. vals m ! (i * nat (c m) + nat (if 0 \<le> x then x else c m + x)))
                      [0..<nat (r m)]\<rparr>
      else Inl IndexOutOfRange)"
proof (cases "- c m \<le> x \<and> x < c m")
  case False
  then show ?thesis by (auto simp: Col_def)
next
  case True
  obtain a b where ab: "r m = int a" "c m = int b" "length (vals m) = a * b"
    using assms unfolding shaped_def
    by (metis nat_0_le nat_int of_nat_mult)
  define col where "col = nat (if 0 \<le> x then x else c m + x)"
  have col: "col < b" "int col = (if 0 \<le> x then x else c m + x)"
    using True ab by (auto simp: col_def)
  have src: "\<And>i. i < a \<Longrightarrow> i * b + col < length (vals m)"
    using col ab by (simp add: cell_lt)
  let ?v0 = "\<lparr>r = int a, c = 1, vals = replicate (a * 1) (fzero F)\<rparr>"
  have new: "New F [r m, 1] = Inr ?v0" using New2[of F a 1] ab by simp
  have loop: "for_range (int a) (\<lambda>i v. and_then (index (vals m) (i * int b + int col)) (put v i)) ?v0
           = Inr (?v0\<lparr>vals := map (\<lambda>i. vals m ! (i * b + col)) [0..<a]\<rparr>)"
    by (rule fill_loop) (simp_all add: src)
  show ?thesis
  proof (cases "0 \<le> x")
    case True
    then show ?thesis
      using \<open>- c m \<le> x \<and> x < c m\<close> new loop col ab
      by (simp add: Col_def col_def)
  next
    case False
    then show ?thesis
      using \<open>- c m \<le> x \<and> x < c m\<close> new loop col ab
      by (simp add: Col_def col_def)
  qed
qed

theorem Col_negative_index_witness:
  "shaped m34
   \<and> Col ideal m34 (-1) = Inr \<lparr>r = 3, c = 1, vals = [Fin 4, Fin 8, Fin 12]\<rparr>
   \<and> Col ideal m34 3 = Inr \<lparr>r = 3, c = 1, vals = [Fin 4, Fin 8, Fin 12]\<rparr>
   \<and> Col ideal m34 4 = Inl IndexOutOfRange
   \<and> Col ideal m34 (-5) = Inl IndexOutOfRange"
proof -
  have s: "shaped m34" by (simp add: shaped_def m34_def)
  show ?thesis
    using s Col_negative_index[OF s, of ideal "-1"] Col_negative_index[OF s, of ideal 3]
      Col_negative_index[OF s, of ideal 4] Col_negative_index[OF s, of ideal "-5"]
    by (simp add: m34_def eval_nat_numeral)
qed

subsection \<open>Equals\<close>

lemma equals_loop_all:
  assumes "\<forall>k\<in>set ks. k < length xs \<and> k < length ys"
  shows "equals_loop F xs ys ks = Inr (\<forall>k\<in>set ks. feq F (xs ! k) (ys ! k))"
  using assms by (induction ks) auto

lemma equals_loop_upt:
  assumes "k \<le> length xs" and "k \<le> length ys"
  shows "equals_loop F xs ys [0..<k] = Inr (\<forall>i<k. feq F (xs ! i) (ys ! i))"
proof -
  have "equals_loop F xs ys [0..<k] = Inr (\<forall>i\<in>set [0..<k]. feq F (xs ! i) (ys ! i))"
    using assms by (intro equals_loop_all) auto
  then show ?thesis by (simp add: Ball_def)
qed

lemma Equals_shaped:
  assumes "shaped m" and "shaped n"
  shows "Equals F m n =
           Inr (r m = r n \<and> c m = c n \<and> (\<forall>i<length (vals m). feq F (vals m ! i) (vals n ! i)))"
proof -
  have len: "nat (r m * c m) = length (vals m)" "nat (r n * c n) = length (vals n)"
    using assms unfolding shaped_def by (metis nat_int)+
  show ?thesis
  proof (cases "r m = r n \<and> c m = c n")
    case True
    then have "length (vals n) = length (vals m)" using len by simp
    then show ?thesis using True len
      by (simp add: Equals_def equals_loop_upt)
  next
    case False
    then show ?thesis by (auto simp: Equals_def)
  qed
qed

lemma Equals_self:
  assumes "shaped m" and "vals n = vals m" and "r n = r m" and "c n = c m"
  shows "Equals F n m = Inr (\<not> (\<exists>x\<in>set (vals m). isNaN F x))"
proof -
  have "shaped n" using assms by (simp add: shaped_def)
  then have "Equals F n m = Inr (\<forall>k<length (vals m). feq F (vals m ! k) (vals m ! k))"
    using assms by (simp add: Equals_shaped)
  also have "(\<forall>k<length (vals m). feq F (vals m ! k) (vals m ! k))
               \<longleftrightarrow> \<not> (\<exists>x\<in>set (vals m). isNaN F x)"
    unfolding isNaN_def by (metis in_set_conv_nth)
  finally show ?thesis .
qed

text \<open>
  C10.  On matrices that satisfy the shape invariant, \<^verbatim>\<open>Equals\<close> returns true exactly
  when the rows agree, the columns agree and every pair of elements at the same linear
  index compares equal under the float equality; hence \<^verbatim>\<open>m.Equals(m)\<close> is true
  exactly when \<open>m\<close> holds no NaN (no element that differs from itself).
\<close>

theorem Equals_iff_elementwise:
  assumes "shaped m" and "shaped n"
  shows "Equals F m n =
           Inr (r m = r n \<and> c m = c n \<and> (\<forall>i<length (vals m). feq F (vals m ! i) (vals n ! i)))
       \<and> Equals F m m = Inr (\<not> (\<exists>x\<in>set (vals m). isNaN F x))"
  using Equals_shaped[OF assms, of F] Equals_self[OF assms(1), of m F] by simp

theorem Equals_iff_elementwise_witness:
  "shaped \<lparr>r = 1, c = 2, vals = [Fin 1, NaN]\<rparr>
   \<and> shaped \<lparr>r = 1, c = 2, vals = [Fin 1, Fin 2]\<rparr>
   \<and> Equals ideal \<lparr>r = 1, c = 2, vals = [Fin 1, NaN]\<rparr> \<lparr>r = 1, c = 2, vals = [Fin 1, NaN]\<rparr>
       = Inr False
   \<and> Equals ideal \<lparr>r = 1, c = 2, vals = [Fin 1, Fin 2]\<rparr> \<lparr>r = 1, c = 2, vals = [Fin 1, Fin 2]\<rparr>
       = Inr True
   \<and> Equals ideal \<lparr>r = 1, c = 2, vals = [Fin 1, Fin 2]\<rparr> \<lparr>r = 1, c = 2, vals = [Fin 1, NaN]\<rparr>
       = Inr False"
proof -
  have s: "shaped \<lparr>r = 1, c = 2, vals = [Fin 1, NaN]\<rparr>"
    "shaped \<lparr>r = 1, c = 2, vals = [Fin 1, Fin 2]\<rparr>"
    by (simp_all add: shaped_def)
  show ?thesis
    using s Equals_iff_elementwise[OF s(1) s(1), of ideal] Equals_iff_elementwise[OF s(2) s(2), of ideal]
      Equals_iff_elementwise[OF s(2) s(1), of ideal]
    by (simp add: isNaN_def ideal_def All_less_Suc eval_nat_numeral)
qed

subsection \<open>Transpose\<close>

lemma T_vals:
  assumes "shaped m"
  shows "T F m = Inr \<lparr>r = c m, c = r m,
           vals = map (\<lambda>p. vals m ! ((p mod nat (r m)) * nat (c m) + p div nat (r m)))
                    [0..<nat (c m) * nat (r m)]\<rparr>"
proof -
  obtain a b where ab: "r m = int a" "c m = int b" "length (vals m) = a * b"
    using assms unfolding shaped_def by (metis nat_0_le nat_int of_nat_mult)
  let ?n0 = "\<lparr>r = int b, c = int a, vals = replicate (b * a) (fzero F)\<rparr>"
  let ?g = "\<lambda>p. vals m ! ((p mod a) * b + p div a)"
  let ?P = "\<lambda>q (n, idx). idx = int q \<and> n = ?n0\<lparr>vals := map ?g [0..<q] @ drop q (vals ?n0)\<rparr>"
  let ?body = "\<lambda>i j (n, idx). and_then (index (vals m) (j * int b + i)) (\<lambda>e.
                and_then (put n idx e) (\<lambda>n'. Inr (n', idx + 1)))"
  have new: "New F [c m, r m] = Inr ?n0" using New2[of F b a] ab by simp
  have "\<exists>t'. for_range (int b) (\<lambda>i. for_range (int a) (?body i)) (?n0, 0) = Inr t' \<and> ?P (b * a) t'"
  proof (rule for_range_nested_rule[where P = ?P])
    show "?P 0 (?n0, 0)" by simp
  next
    fix i j t assume i: "i < b" and j: "j < a" and t: "?P (i * a + j) t"
    obtain n idx where nidx: "t = (n, idx)" by (cases t)
    have q: "i * a + j < b * a" using i j by (rule cell_lt)
    have src: "j * b + i < length (vals m)" using i j ab by (simp add: cell_lt)
    have g: "?g (i * a + j) = vals m ! (j * b + i)" using j by simp
    have idx: "idx = int (i * a + j)" using t nidx by simp
    have len: "i * a + j < length (vals n)" using t nidx q by simp
    have ix: "index (vals m) (int j * int b + int i) = Inr (vals m ! (j * b + i))"
      using index_nat[OF src] by simp
    have "(map ?g [0..<i * a + j] @ drop (i * a + j) (vals ?n0))[i * a + j := ?g (i * a + j)]
            = map ?g [0..<Suc (i * a + j)] @ drop (Suc (i * a + j)) (vals ?n0)"
      using q by (intro fill_step) simp
    then show "\<exists>t'. ?body (int i) (int j) t = Inr t' \<and> ?P (Suc (i * a + j)) t'"
      unfolding nidx idx using t nidx ix g put_nat[OF len] by (simp del: of_nat_add of_nat_mult)
  qed
  then show ?thesis using new ab by (auto simp: T_def)
qed

lemma T_shaped:
  assumes "shaped m" and "T F m = Inr t"
  shows "shaped t" "r t = c m" "c t = r m"
  using assms T_vals[OF assms(1), of F] by (auto simp: shaped_def nat_mult_distrib)

lemma T_At:
  assumes "shaped m" and "T F m = Inr t" and "i < nat (r m)" and "j < nat (c m)"
  shows "At t (int j) (int i) = Inr (vals m ! (i * nat (c m) + j))"
    and "At m (int i) (int j) = Inr (vals m ! (i * nat (c m) + j))"
proof -
  obtain a b where ab: "r m = int a" "c m = int b" "length (vals m) = a * b"
    using assms(1) by (rule shapedE)
  have i: "i < a" and j: "j < b" using assms ab by simp_all
  have q: "j * a + i < b * a" using j i by (rule cell_lt)
  have t: "t = \<lparr>r = int b, c = int a,
           vals = map (\<lambda>p. vals m ! ((p mod a) * b + p div a)) [0..<b * a]\<rparr>"
    using T_vals[OF assms(1), of F] assms(2) ab by simp
  have "index (vals t) (int (j * a + i)) = Inr (vals t ! (j * a + i))"
    using q t by (intro index_nat) simp
  then show "At t (int j) (int i) = Inr (vals m ! (i * nat (c m) + j))"
    using t q i ab by (simp add: At_def)
  have "i * b + j < length (vals m)" using i j ab by (simp add: cell_lt)
  from index_nat[OF this] show "At m (int i) (int j) = Inr (vals m ! (i * nat (c m) + j))"
    using ab by (simp add: At_def)
qed

lemma T_T:
  assumes "shaped m" and "T F m = Inr t"
  shows "T F t = Inr m"
proof -
  obtain a b where ab: "r m = int a" "c m = int b" "length (vals m) = a * b"
    using assms(1) by (rule shapedE)
  have t: "t = \<lparr>r = int b, c = int a,
           vals = map (\<lambda>p. vals m ! ((p mod a) * b + p div a)) [0..<b * a]\<rparr>"
    using T_vals[OF assms(1), of F] assms(2) ab by simp
  have st: "shaped t" using assms by (rule T_shaped)
  have "map (\<lambda>p. vals t ! ((p mod b) * a + p div b)) [0..<a * b] = vals m"
  proof (rule nth_equalityI)
    show "length (map (\<lambda>p. vals t ! ((p mod b) * a + p div b)) [0..<a * b]) = length (vals m)"
      using ab by simp
  next
    fix p assume "p < length (map (\<lambda>p. vals t ! ((p mod b) * a + p div b)) [0..<a * b])"
    then have p: "p < a * b" by simp
    then have b0: "0 < b" by (cases b) auto
    have pm: "p mod b < b" using b0 by simp
    have pd: "p div b < a" using p b0 by (simp add: less_mult_imp_div_less)
    have q: "(p mod b) * a + p div b < b * a" using pm pd by (rule cell_lt)
    have "vals t ! ((p mod b) * a + p div b) = vals m ! ((p div b) * b + p mod b)"
      using q pd by (simp add: t)
    also have "\<dots> = vals m ! p" by simp
    finally show "map (\<lambda>p. vals t ! ((p mod b) * a + p div b)) [0..<a * b] ! p = vals m ! p"
      using p by simp
  qed
  then show ?thesis using T_vals[OF st, of F] t ab by (simp add: mult.commute)
qed


text \<open>
  C8 (amended).  For \<open>m\<close> satisfying the shape invariant, \<^verbatim>\<open>m.T()\<close> is a fresh
  cols-by-rows Mat \<open>t\<close> with \<open>t[j][i] = m[i][j]\<close> for every valid \<open>(i, j)\<close> (the
  original is only read), and \<^verbatim>\<open>m.T().T()\<close> has the dimensions and the values of
  \<open>m\<close>; \<^verbatim>\<open>m.T().T().Equals(m)\<close> is true exactly when \<open>m\<close> holds no NaN.
\<close>

theorem T_involution_up_to_NaN:
  assumes "shaped m"
  shows "\<exists>t. T F m = Inr t \<and> r t = c m \<and> c t = r m \<and> shaped t
           \<and> (\<forall>i<nat (r m). \<forall>j<nat (c m).
                  At t (int j) (int i) = At m (int i) (int j) \<and> (\<exists>x. At m (int i) (int j) = Inr x))
           \<and> T F t = Inr m
           \<and> and_then (T F t) (\<lambda>u. Equals F u m) = Inr (\<not> (\<exists>x\<in>set (vals m). isNaN F x))"
proof -
  obtain t where t: "T F m = Inr t" using T_vals[OF assms, of F] by simp
  have "At t (int j) (int i) = At m (int i) (int j) \<and> (\<exists>x. At m (int i) (int j) = Inr x)"
    if "i < nat (r m)" "j < nat (c m)" for i j
    using T_At[OF assms t that] by simp
  then show ?thesis
    using t T_shaped[OF assms t] T_T[OF assms t] Equals_self[OF assms, of m F] by simp
qed

theorem T_involution_up_to_NaN_witness:
  "shaped m34
   \<and> (\<exists>t. T ideal m34 = Inr t \<and> r t = 4 \<and> c t = 3 \<and> At t 3 1 = At m34 1 3
          \<and> At m34 1 3 = Inr (Fin 8) \<and> T ideal t = Inr m34)
   \<and> and_then (T ideal m34) (\<lambda>t. and_then (T ideal t) (\<lambda>u. Equals ideal u m34)) = Inr True"
proof -
  have s: "shaped m34" by (simp add: shaped_def m34_def)
  obtain t where t: "T ideal m34 = Inr t" "r t = c m34" "c t = r m34"
    "\<forall>i<nat (r m34). \<forall>j<nat (c m34).
        At t (int j) (int i) = At m34 (int i) (int j) \<and> (\<exists>x. At m34 (int i) (int j) = Inr x)"
    "T ideal t = Inr m34"
    "and_then (T ideal t) (\<lambda>u. Equals ideal u m34)
       = Inr (\<not> (\<exists>x\<in>set (vals m34). isNaN ideal x))"
    using T_involution_up_to_NaN[OF s, of ideal] by blast
  have "At t (int 3) (int 1) = At m34 (int 1) (int 3)"
    using t(4)[rule_format, of 1 3] by (simp add: m34_def)
  moreover have "At m34 1 3 = Inr (Fin 8)" by (simp add: At_def index_def m34_def)
  moreover have "and_then (T ideal m34) (\<lambda>t. and_then (T ideal t) (\<lambda>u. Equals ideal u m34)) = Inr True"
    using t(1) t(6) by (simp add: m34_def isNaN_def ideal_def)
  ultimately show ?thesis using s t by (auto simp: m34_def)
qed

text \<open>
  C8 as stated fails on a matrix holding a NaN: for the 1-by-1 matrix \<open>[NaN]\<close>,
  \<^verbatim>\<open>m.T().T().Equals(m)\<close> is false, since \<^verbatim>\<open>Equals\<close> compares with \<^verbatim>\<open>!=\<close>.
\<close>

theorem T_involution_NaN_counterexample:
  "and_then (T ideal m11_nan) (\<lambda>t. and_then (T ideal t) (\<lambda>u. Equals ideal u m11_nan)) = Inr False"
proof -
  have s: "shaped m11_nan" by (simp add: shaped_def m11_nan_def)
  have t: "T ideal m11_nan = Inr m11_nan" using T_vals[OF s, of ideal] by (simp add: m11_nan_def)
  have "Equals ideal m11_nan m11_nan = Inr False"
    using Equals_self[OF s, of m11_nan ideal] by (simp add: m11_nan_def isNaN_def ideal_def)
  then show ?thesis using t by simp
qed

subsection \<open>Dot\<close>

lemma acc_loop:
  assumes cc: "c o0 = int cc"
    and q: "i * cc + j < length (vals o0)"
    and srcs: "\<And>k. k < b \<Longrightarrow> hx (int k) = int (gx k) \<and> gx k < length xs
                 \<and> hy (int k) = int (gy k) \<and> gy k < length ys"
  shows "for_range (int b) (\<lambda>k o'.
            and_then (index (vals o') (int i * c o' + int j)) (\<lambda>acc.
              and_then (index xs (hx k)) (\<lambda>x.
                and_then (index ys (hy k)) (\<lambda>y.
                  put o' (int i * c o' + int j) (fadd F acc (fmul F x y)))))) o0
         = Inr (o0\<lparr>vals := (vals o0)[i * cc + j :=
                  foldl (\<lambda>acc k. fadd F acc (fmul F (xs ! gx k) (ys ! gy k)))
                    (vals o0 ! (i * cc + j)) [0..<b]]\<rparr>)"
proof -
  let ?f = "\<lambda>acc k. fadd F acc (fmul F (xs ! gx k) (ys ! gy k))"
  let ?q = "i * cc + j"
  let ?P = "\<lambda>k o'. o' = o0\<lparr>vals := (vals o0)[?q := foldl ?f (vals o0 ! ?q) [0..<k]]\<rparr>"
  let ?body = "\<lambda>k o'.
            and_then (index (vals o') (int i * c o' + int j)) (\<lambda>acc.
              and_then (index xs (hx k)) (\<lambda>x.
                and_then (index ys (hy k)) (\<lambda>y.
                  put o' (int i * c o' + int j) (fadd F acc (fmul F x y)))))"
  have "\<exists>t'. for_range (int b) ?body o0 = Inr t' \<and> ?P b t'"
  proof (rule for_range_rule[where P = ?P])
    show "?P 0 o0" by simp
  next
    fix k t assume k: "k < b" and t: "?P k t"
    have pos: "int i * c t + int j = int ?q" using t cc by simp
    have len: "?q < length (vals t)" using t q by simp
    have cur: "vals t ! ?q = foldl ?f (vals o0 ! ?q) [0..<k]" using t q by simp
    show "\<exists>t'. ?body (int k) t = Inr t' \<and> ?P (Suc k) t'"
      unfolding pos using srcs[OF k] index_nat[OF len] put_nat[OF len] cur t
      by simp
  qed
  then show ?thesis by simp
qed

lemma Dot_vals:
  assumes "shaped m" and "shaped n" and "c m = r n"
  shows "Dot F m n = Inr \<lparr>r = r m, c = c n,
           vals = map (\<lambda>p. dot_cell F m n (p div nat (c n)) (p mod nat (c n)))
                    [0..<nat (r m) * nat (c n)]\<rparr>"
proof -
  obtain a b where ab: "r m = int a" "c m = int b" "length (vals m) = a * b"
    using assms(1) by (rule shapedE)
  obtain b' cc where bc: "r n = int b'" "c n = int cc" "length (vals n) = b' * cc"
    using assms(2) by (rule shapedE)
  have b': "b' = b" using assms(3) ab bc by simp
  let ?o0 = "\<lparr>r = int a, c = int cc, vals = replicate (a * cc) (fzero F)\<rparr>"
  let ?g = "\<lambda>p. dot_cell F m n (p div cc) (p mod cc)"
  let ?P = "\<lambda>q o'. o' = ?o0\<lparr>vals := map ?g [0..<q] @ drop q (vals ?o0)\<rparr>"
  let ?body = "\<lambda>i j. for_range (int b) (\<lambda>k o'.
            and_then (index (vals o') (i * c o' + j)) (\<lambda>acc.
              and_then (index (vals m) (i * int b + k)) (\<lambda>x.
                and_then (index (vals n) (k * int cc + j)) (\<lambda>y.
                  put o' (i * c o' + j) (fadd F acc (fmul F x y))))))"
  have new: "New F [r m, c n] = Inr ?o0" using New2[of F a cc] ab bc by simp
  have "\<exists>t'. for_range (int a) (\<lambda>i. for_range (int cc) (?body i)) ?o0 = Inr t' \<and> ?P (a * cc) t'"
  proof (rule for_range_nested_rule[where P = ?P])
    show "?P 0 ?o0" by simp
  next
    fix i j t assume i: "i < a" and j: "j < cc" and t: "?P (i * cc + j) t"
    have q: "i * cc + j < a * cc" using i j by (rule cell_lt)
    have ct: "c t = int cc" using t by simp
    have len: "i * cc + j < length (vals t)" using t q by simp
    have zero: "vals t ! (i * cc + j) = fzero F" using t q by (simp add: nth_append)
    have srcs: "\<And>k. k < b \<Longrightarrow> int i * int b + int k = int (i * b + k) \<and> i * b + k < length (vals m)
                 \<and> int k * int cc + int j = int (k * cc + j) \<and> k * cc + j < length (vals n)"
      using i j ab bc b' by (simp add: cell_lt)
    have inner: "?body (int i) (int j) t
         = Inr (t\<lparr>vals := (vals t)[i * cc + j :=
                  foldl (\<lambda>acc k. fadd F acc (fmul F (vals m ! (i * b + k)) (vals n ! (k * cc + j))))
                    (vals t ! (i * cc + j)) [0..<b]]\<rparr>)"
      by (rule acc_loop[where hx = "\<lambda>k. int i * int b + k" and gx = "\<lambda>k. i * b + k"
            and hy = "\<lambda>k. k * int cc + int j" and gy = "\<lambda>k. k * cc + j", OF ct len srcs])
    have g: "?g (i * cc + j)
         = foldl (\<lambda>acc k. fadd F acc (fmul F (vals m ! (i * b + k)) (vals n ! (k * cc + j))))
             (fzero F) [0..<b]"
      using j ab bc by (simp add: dot_cell_def)
    have "(map ?g [0..<i * cc + j] @ drop (i * cc + j) (vals ?o0))[i * cc + j := ?g (i * cc + j)]
            = map ?g [0..<Suc (i * cc + j)] @ drop (Suc (i * cc + j)) (vals ?o0)"
      using q by (intro fill_step) simp
    then show "\<exists>t'. ?body (int i) (int j) t = Inr t' \<and> ?P (Suc (i * cc + j)) t'"
      unfolding inner zero g[symmetric] using t by simp
  qed
  then show ?thesis using new ab bc assms(3) by (auto simp: Dot_def)
qed

text \<open>
  C7.  For \<open>m\<close> and \<open>n\<close> satisfying the shape invariant, \<^verbatim>\<open>m.Dot(n)\<close> fails with
  ShapeMismatch when \<open>m.c \<noteq> n.r\<close>.  When \<open>m.c = n.r\<close> and the result fits a slice
  (\<open>2 * m.r * n.c < 2^63\<close>, so that the length and the capacity \<^verbatim>\<open>New\<close> computes do not
  wrap around), it returns a fresh \<open>m.r\<close>-by-\<open>n.c\<close> Mat whose element at row \<open>i\<close>,
  column \<open>j\<close> is \<open>dot_cell F m n i j\<close>: the products \<open>m[i][k] * n[k][j]\<close> added to
  \<open>0.0\<close> in increasing \<open>k\<close>, with the float operations in exactly that order.  The
  operands are only read: the function returns nothing but the new Mat.
\<close>

theorem Dot_triple_loop:
  assumes "shaped m" and "shaped n"
  shows "(c m \<noteq> r n \<longrightarrow> Dot F m n = Inl ShapeMismatch)
   \<and> (c m = r n \<and> 2 * (r m * c n) < 2 ^ 63 \<longrightarrow>
        Dot F m n =
          Inr \<lparr>r = r m, c = c n,
                vals = map (\<lambda>p. dot_cell F m n (p div nat (c n)) (p mod nat (c n)))
                         [0..<nat (r m) * nat (c n)]\<rparr>
      \<and> (\<forall>i<nat (r m). \<forall>j<nat (c n).
            At \<lparr>r = r m, c = c n,
                 vals = map (\<lambda>p. dot_cell F m n (p div nat (c n)) (p mod nat (c n)))
                          [0..<nat (r m) * nat (c n)]\<rparr> (int i) (int j)
              = Inr (dot_cell F m n i j)))"
proof (cases "c m = r n")
  case False
  then show ?thesis by (simp add: Dot_def)
next
  case True
  note dv = Dot_vals[OF assms True, of F]
  obtain a where a: "r m = int a" using assms(1) by (auto elim: shapedE)
  obtain cc where cc: "c n = int cc" using assms(2) by (auto elim: shapedE)
  have "At \<lparr>r = r m, c = c n,
           vals = map (\<lambda>p. dot_cell F m n (p div nat (c n)) (p mod nat (c n)))
                    [0..<nat (r m) * nat (c n)]\<rparr> (int i) (int j) = Inr (dot_cell F m n i j)"
    if "i < nat (r m)" "j < nat (c n)" for i j
  proof -
    have q: "i * cc + j < a * cc" using that a cc by (simp add: cell_lt)
    have "index (map (\<lambda>p. dot_cell F m n (p div cc) (p mod cc)) [0..<a * cc]) (int (i * cc + j))
            = Inr (dot_cell F m n i j)"
      using q that cc by (subst index_nat) simp_all
    then show ?thesis using a cc by (simp add: At_def)
  qed
  then show ?thesis using True dv by simp
qed

theorem Dot_triple_loop_witness:
  "shaped m22 \<and> shaped m21 \<and> c m22 = r m21 \<and> 2 * (r m22 * c m21) < (2 :: int) ^ 63
   \<and> Dot ideal m22 m21 = Inr \<lparr>r = 2, c = 1, vals = [Fin 17, Fin 39]\<rparr>
   \<and> At \<lparr>r = 2, c = 1, vals = [Fin 17, Fin 39]\<rparr> 1 0 = Inr (Fin 39)
   \<and> c m21 \<noteq> r m22
   \<and> Dot ideal m21 m22 = Inl ShapeMismatch"
proof -
  have s: "shaped m22" "shaped m21" by (simp_all add: shaped_def m22_def m21_def)
  have b: "c m22 = r m21" "2 * (r m22 * c m21) < (2 :: int) ^ 63" "c m21 \<noteq> r m22"
    by (simp_all add: m22_def m21_def)
  have at: "At \<lparr>r = 2, c = 1, vals = [Fin 17, Fin 39]\<rparr> 1 0 = Inr (Fin 39)"
    by (simp add: At_def index_def)
  show ?thesis
    using s b at Dot_triple_loop[OF s(1) s(2), of ideal] Dot_triple_loop[OF s(2) s(1), of ideal]
    by (simp add: m22_def m21_def dot_cell_def ideal_def eval_nat_numeral)
qed

subsection \<open>Element-wise arithmetic\<close>

lemma deref_Some [simp]: "\<sigma> p = Some m \<Longrightarrow> deref \<sigma> p = Inr m"
  by (simp add: deref_def)

lemma mat_loop:
  assumes p: "\<sigma> p = Some m" and q: "\<sigma> q = Some n"
    and len: "length (vals n) = length (vals m)"
  shows "for_range (int (length (vals m))) (step_mat f p q) \<sigma>
           = Inr (\<sigma>(p \<mapsto> m\<lparr>vals := map (\<lambda>i. f (vals m ! i) (vals n ! i)) [0..<length (vals m)]\<rparr>))"
proof -
  let ?g = "\<lambda>i. f (vals m ! i) (vals n ! i)"
  let ?P = "\<lambda>k \<sigma>'. \<sigma>' = \<sigma>(p \<mapsto> m\<lparr>vals := map ?g [0..<k] @ drop k (vals m)\<rparr>)"
  have "\<exists>t'. for_range (int (length (vals m))) (step_mat f p q) \<sigma> = Inr t' \<and> ?P (length (vals m)) t'"
  proof (rule for_range_rule[where P = ?P])
    show "?P 0 \<sigma>" using p by (simp add: fun_upd_idem)
  next
    fix k t assume k: "k < length (vals m)" and t: "?P k t"
    let ?mk = "m\<lparr>vals := map ?g [0..<k] @ drop k (vals m)\<rparr>"
    have tp: "t p = Some ?mk" using t by simp
    have "\<exists>v. t q = Some v \<and> length (vals v) = length (vals m) \<and> vals v ! k = vals n ! k"
    proof (cases "q = p")
      case True
      then have "n = m" using p q by simp
      then show ?thesis using True tp k by (simp add: nth_append)
    next
      case False
      then show ?thesis using t q len by simp
    qed
    then obtain v where v: "t q = Some v" "length (vals v) = length (vals m)" "vals v ! k = vals n ! k"
      by blast
    have lk: "k < length (vals ?mk)" using k by simp
    have cur: "vals ?mk ! k = vals m ! k" using k by (simp add: nth_append)
    have upd: "(map ?g [0..<k] @ drop k (vals m))[k := ?g k] = map ?g [0..<Suc k] @ drop (Suc k) (vals m)"
      using k by (rule fill_step)
    show "\<exists>t'. step_mat f p q (int k) t = Inr t' \<and> ?P (Suc k) t'"
      using tp v k lk cur upd t by (simp add: step_mat_def)
  qed
  then show ?thesis by simp
qed


lemma arith_MatPtr:
  assumes p: "\<sigma> p = Some m" and q: "\<sigma> q = Some n"
    and len: "r n = r m \<and> c n = c m \<longrightarrow> length (vals n) = length (vals m)"
  shows "arith f \<sigma> p (MatPtr q) =
     (if r n = r m \<and> c n = c m
      then Inr (\<sigma>(p \<mapsto> m\<lparr>vals := map (\<lambda>i. f (vals m ! i) (vals n ! i)) [0..<length (vals m)]\<rparr>), p)
      else Inl ShapeMismatch)"
proof (cases "r n = r m \<and> c n = c m")
  case True
  then show ?thesis using p q mat_loop[OF p q, of f] len by (simp add: arith_def)
next
  case False
  then show ?thesis using p q by (auto simp: arith_def)
qed

lemma shaped_same_length:
  assumes "shaped m" and "shaped n" and "r n = r m" and "c n = c m"
  shows "length (vals n) = length (vals m)"
proof -
  have "int (length (vals n)) = int (length (vals m))" using assms by (simp add: shaped_def)
  then show ?thesis by simp
qed

text \<open>
  C3.  Let the receiver pointer \<open>p\<close> and the operand pointer \<open>q\<close> (possibly the same
  pointer) hold Mats \<open>m\<close> and \<open>n\<close> that satisfy the shape invariant.  If \<open>n\<close> has
  the rows and the columns of \<open>m\<close>, each of \<^verbatim>\<open>Add\<close>, \<^verbatim>\<open>Sub\<close>, \<^verbatim>\<open>Mul\<close>,
  \<^verbatim>\<open>Div\<close> stores \<open>m.vals[i] op n.vals[i]\<close> at every linear index \<open>i\<close> of the
  receiver, in place, and returns the receiver's pointer; otherwise the call fails with
  ShapeMismatch before its loop, so no element is combined.
\<close>

theorem arith_elementwise_in_place:
  assumes "\<sigma> p = Some m" and "\<sigma> q = Some n" and "shaped m" and "shaped n"
  shows "Add F \<sigma> p (MatPtr q) =
     (if r n = r m \<and> c n = c m
      then Inr (\<sigma>(p \<mapsto> m\<lparr>vals := map (\<lambda>i. fadd F (vals m ! i) (vals n ! i)) [0..<length (vals m)]\<rparr>), p)
      else Inl ShapeMismatch)
   \<and> Sub F \<sigma> p (MatPtr q) =
     (if r n = r m \<and> c n = c m
      then Inr (\<sigma>(p \<mapsto> m\<lparr>vals := map (\<lambda>i. fsub F (vals m ! i) (vals n ! i)) [0..<length (vals m)]\<rparr>), p)
      else Inl ShapeMismatch)
   \<and> Mul F \<sigma> p (MatPtr q) =
     (if r n = r m \<and> c n = c m
      then Inr (\<sigma>(p \<mapsto> m\<lparr>vals := map (\<lambda>i. fmul F (vals m ! i) (vals n ! i)) [0..<length (vals m)]\<rparr>), p)
      else Inl ShapeMismatch)
   \<and> Div F \<sigma> p (MatPtr q) =
     (if r n = r m \<and> c n = c m
      then Inr (\<sigma>(p \<mapsto> m\<lparr>vals := map (\<lambda>i. fdiv F (vals m ! i) (vals n ! i)) [0..<length (vals m)]\<rparr>), p)
      else Inl ShapeMismatch)"
proof -
  have len: "r n = r m \<and> c n = c m \<longrightarrow> length (vals n) = length (vals m)"
    using shaped_same_length[OF assms(3,4)] by blast
  note a = arith_MatPtr[OF assms(1,2) len]
  show ?thesis unfolding Add_def Sub_def Mul_def Div_def
    by (intro conjI) (rule a)+
qed

theorem arith_elementwise_in_place_witness:
  "store0 0 = Some m22 \<and> store0 1 = Some m21 \<and> shaped m22 \<and> shaped m21
   \<and> Add ideal store0 0 (MatPtr 0)
       = Inr (store0(0 \<mapsto> \<lparr>r = 2, c = 2, vals = [Fin 2, Fin 4, Fin 6, Fin 8]\<rparr>), 0)
   \<and> Mul ideal store0 0 (MatPtr 0)
       = Inr (store0(0 \<mapsto> \<lparr>r = 2, c = 2, vals = [Fin 1, Fin 4, Fin 9, Fin 16]\<rparr>), 0)
   \<and> Sub ideal store0 0 (MatPtr 1) = Inl ShapeMismatch
   \<and> Div ideal store0 1 (MatPtr 0) = Inl ShapeMismatch"
proof -
  have s: "store0 0 = Some m22" "store0 1 = Some m21" "shaped m22" "shaped m21"
    by (simp_all add: store0_def shaped_def m22_def m21_def)
  show ?thesis
    using s
      arith_elementwise_in_place[where \<sigma> = store0 and p = 0 and q = 0 and F = ideal, OF s(1) s(1) s(3) s(3)]
      arith_elementwise_in_place[where \<sigma> = store0 and p = 0 and q = 1 and F = ideal, OF s(1) s(2) s(3) s(4)]
      arith_elementwise_in_place[where \<sigma> = store0 and p = 1 and q = 0 and F = ideal, OF s(2) s(1) s(4) s(3)]
    by (simp add: m22_def m21_def ideal_def eval_nat_numeral)
qed

lemma any_loop_iff: "any_loop f xs \<longleftrightarrow> (\<exists>x\<in>set xs. f x)"
  by (induction xs) auto

lemma Div_v006_zero_divisor:
  assumes "\<sigma> p = Some m" and "\<sigma> q = Some n" and "r m = r n" and "c m = c n"
    and "\<exists>x\<in>set (vals n). feq F x (fzero F)"
  shows "Div_v006 F \<sigma> p q = Inl DivisionByZero"
  using assms by (simp add: Div_v006_def Any_def any_loop_iff)

text \<open>
  C2 (code defect).  \<^verbatim>\<open>Div\<close> has no test for a zero in the divisor: dividing the
  1-by-2 matrix \<open>[0, 2]\<close> by itself returns normally with the receiver overwritten by
  \<open>[NaN, 1]\<close>.  The older variant of \<^verbatim>\<open>Div\<close>, which tests \<^verbatim>\<open>n.Any(zero)\<close> before
  its loop, refuses the same call with DivisionByZero.
\<close>

theorem Div_zero_divisor_not_refused:
  "Div ideal ((\<lambda>_. None)(0 \<mapsto> m12_zero)) 0 (MatPtr 0)
     = Inr ((\<lambda>_. None)(0 \<mapsto> \<lparr>r = 1, c = 2, vals = [NaN, Fin 1]\<rparr>), 0)
   \<and> Div_v006 ideal ((\<lambda>_. None)(0 \<mapsto> m12_zero)) 0 0 = Inl DivisionByZero"
proof -
  let ?s = "(\<lambda>_. None)(0 \<mapsto> m12_zero) :: f64 store"
  have s: "?s 0 = Some m12_zero" by simp
  have "arith (fdiv ideal) ?s 0 (MatPtr 0)
     = Inr (?s(0 \<mapsto> m12_zero\<lparr>vals := map (\<lambda>i. fdiv ideal (vals m12_zero ! i) (vals m12_zero ! i))
                 [0..<length (vals m12_zero)]\<rparr>), 0)"
    using arith_MatPtr[where \<sigma> = ?s and p = 0 and q = 0 and m = m12_zero and n = m12_zero
        and f = "fdiv ideal", OF s s] by simp
  then have 1: "Div ideal ?s 0 (MatPtr 0)
     = Inr ((\<lambda>_. None)(0 \<mapsto> \<lparr>r = 1, c = 2, vals = [NaN, Fin 1]\<rparr>), 0)"
    by (simp add: Div_def m12_zero_def ideal_def f64_inf_def eval_nat_numeral)
  have "\<exists>x\<in>set (vals m12_zero). feq ideal x (fzero ideal)"
    by (simp add: m12_zero_def ideal_def)
  then have 2: "Div_v006 ideal ?s 0 0 = Inl DivisionByZero"
    using Div_v006_zero_divisor[where \<sigma> = ?s and p = 0 and q = 0 and m = m12_zero and n = m12_zero
        and F = ideal, OF s s] by simp
  show ?thesis using 1 2 by simp
qed

subsection \<open>Running the loops on small bounds\<close>

lemma for_range_numeral_2: "for_range 2 body s = and_then (body 0 s) (body 1)"
  by (simp add: for_range_def eval_nat_numeral and_then_def split: sum.splits)

lemma for_range_numeral_1: "for_range 1 body s = body 0 s"
  by (simp add: for_range_def and_then_def split: sum.splits)

lemma for_range_numeral_3: "for_range 3 body s = and_then (and_then (body 0 s) (body 1)) (body 2)"
  by (simp add: for_range_def eval_nat_numeral and_then_def for_each_append split: sum.splits)

subsection \<open>Standard deviation\<close>

text \<open>
  C4 (code defect).  With two arguments \<^verbatim>\<open>Std\<close> divides the sum of squared differences
  by \<^verbatim>\<open>len(m.vals)\<close>, the total element count, not by the length of the row or
  column.  On the 4-by-2 matrix whose row 0 is \<open>[0, 4]\<close> (mean 2, squared differences
  summing to 8), \<^verbatim>\<open>Std(0, 0)\<close> returns \<open>sqrt(8/8) = 1\<close>; the population standard
  deviation of the row is \<open>sqrt(8/2) = 2\<close>, which is what the older variant of
  \<^verbatim>\<open>Std\<close>, dividing by \<^verbatim>\<open>len(s)\<close>, returns.
\<close>

theorem Std_row_divides_by_total:
  "Std ideal m42 [0, 0] = Inr (Fin 1)
   \<and> population_std ideal [Fin 0, Fin 4] = Fin 2
   \<and> Std_v006 ideal m42 0 0 = Inr (Fin 2)"
proof -
  have avg: "Avg ideal m42 [0, 0] = Inr (Fin 2)"
    by (simp add: m42_def for_range_numeral_2 index_def ideal_def)
  have 1: "Std ideal m42 [0, 0] = Inr (Fin 1)"
    using avg by (simp add: m42_def for_range_numeral_2 index_def ideal_def f64_sub_def)
  have 2: "population_std ideal [Fin 0, Fin 4] = Fin 2"
    by (simp add: population_std_def mean_def ideal_def f64_sub_def)
  have pa: "precheckedAverage ideal m42 0 0 = Inr (Fin 2)"
    by (simp add: precheckedAverage_def precheckedSum_def m42_def for_range_numeral_2 index_def ideal_def)
  have 3: "Std_v006 ideal m42 0 0 = Inr (Fin 2)"
    unfolding Std_v006_def using pa
    by (simp add: m42_def for_range_numeral_2 index_def assign_def make_slice_def ideal_def
        f64_sub_def eval_nat_numeral)
  show ?thesis using 1 2 3 by simp
qed

subsection \<open>FromData\<close>

text \<open>
  C5 (code defect).  For nested data with one dimension \<open>a\<close> the test is
  \<^verbatim>\<open>dims[0]*2 != len(v)*len(v[0])\<close>, not \<open>a*a\<close> against the element count; with two
  dimensions it is \<^verbatim>\<open>dims[0] != len(v) || dims[1] != len(v[0])\<close>, not the product.
  So \<^verbatim>\<open>FromData([[7]], 1)\<close> (1*1 = 1 element) is refused, a 2-by-3 source with
  dimensions \<open>(3, 2)\<close> (3*2 = 6 elements) is refused, and the same source with the
  single dimension 3 (3*3 = 9, not 6) is accepted, with the rows and columns of the
  source rather than the supplied dimension.
\<close>

theorem FromData_nested_dims_check:
  "FromData ideal (Slice2D [[Fin 7]]) [1] = Inl ShapeMismatch
   \<and> FromData ideal (Slice2D [[Fin 1, Fin 2, Fin 3], [Fin 4, Fin 5, Fin 6]]) [3, 2] = Inl ShapeMismatch
   \<and> FromData ideal (Slice2D [[Fin 1, Fin 2, Fin 3], [Fin 4, Fin 5, Fin 6]]) [3]
       = Inr \<lparr>r = 2, c = 3,
              vals = [Fin 1, Fin 2, Fin 3, Fin 4, Fin 5, Fin 6, Fin 0, Fin 0, Fin 0]\<rparr>"
  by (simp add: len0_def fill2D_def for_range_numeral_2 for_range_numeral_3 assign_def
      make_slice_def ideal_def eval_nat_numeral)

subsection \<open>Set and At\<close>

lemma Set_At_square:
  assumes "shaped m" and "r m = c m" and "0 \<le> i" and "i < r m" and "0 \<le> j" and "j < c m"
  shows "\<exists>m'. Set m i j v = Inr m' \<and> At m' i j = Inr v \<and> r m' = r m \<and> c m' = c m"
proof -
  have "i * c m + j < (i + 1) * c m" using assms by (simp add: distrib_right)
  also have "\<dots> \<le> r m * c m" using assms by (intro mult_right_mono) auto
  finally have lt: "i * c m + j < int (length (vals m))" using assms by (simp add: shaped_def)
  have ge: "0 \<le> i * c m + j" using assms by simp
  show ?thesis using lt ge assms(2) by (simp add: Set_def At_def assign_def index_def)
qed

text \<open>
  C1 (code defect).  On a 2-by-3 matrix of zeros, \<^verbatim>\<open>Set(1, 0, 9)\<close> writes linear index
  \<open>1*rows + 0 = 2\<close>, which is element (0, 2); the element (1, 0) that \<^verbatim>\<open>At(1, 0)\<close>
  reads, at index \<open>1*cols + 0 = 3\<close>, still holds 0.  So \<^verbatim>\<open>Set\<close> followed by
  \<^verbatim>\<open>At\<close> does not return the value written on a non-square matrix.
\<close>

theorem Set_nonsquare_wrong_index:
  "Set \<lparr>r = 2, c = 3, vals = [Fin 0, Fin 0, Fin 0, Fin 0, Fin 0, Fin 0]\<rparr> 1 0 (Fin 9)
     = Inr \<lparr>r = 2, c = 3, vals = [Fin 0, Fin 0, Fin 9, Fin 0, Fin 0, Fin 0]\<rparr>
   \<and> At \<lparr>r = 2, c = 3, vals = [Fin 0, Fin 0, Fin 9, Fin 0, Fin 0, Fin 0]\<rparr> 1 0 = Inr (Fin 0)
   \<and> At \<lparr>r = 2, c = 3, vals = [Fin 0, Fin 0, Fin 9, Fin 0, Fin 0, Fin 0]\<rparr> 0 2 = Inr (Fin 9)"
  by (simp add: Set_def At_def assign_def index_def)

subsection \<open>Rows, appended rows and columns, concatenation\<close>

lemma assign_nat [simp]: "k < length xs \<Longrightarrow> assign xs (int k) e = Inr (xs[k := e])"
  by (simp add: assign_def)

lemma make_slice_nat [simp]: "make_slice F (int k) (int k) = Inr (replicate k (fzero F))"
  by (simp add: make_slice_def)

lemma row_fill:
  assumes i: "i < length s" and row: "length (s ! i) = b"
    and src: "\<And>j. j < b \<Longrightarrow> h (int j) = int (g j) \<and> g j < length xs"
  shows "for_range (int b) (\<lambda>j s.
           and_then (index xs (h j)) (\<lambda>x.
             and_then (index s (int i)) (\<lambda>row.
               and_then (assign row j x) (\<lambda>row. assign s (int i) row)))) s
         = Inr (s[i := map (\<lambda>j. xs ! g j) [0..<b]])"
proof -
  let ?body = "\<lambda>j s.
           and_then (index xs (h j)) (\<lambda>x.
             and_then (index s (int i)) (\<lambda>row.
               and_then (assign row j x) (\<lambda>row. assign s (int i) row)))"
  let ?P = "\<lambda>k s'. s' = s[i := map (\<lambda>j. xs ! g j) [0..<k] @ drop k (s ! i)]"
  have "\<exists>t'. for_range (int b) ?body s = Inr t' \<and> ?P b t'"
  proof (rule for_range_rule[where P = ?P])
    show "?P 0 s" by simp
  next
    fix k t assume k: "k < b" and t: "?P k t"
    have it: "i < length t" using t i by simp
    have ti: "t ! i = map (\<lambda>j. xs ! g j) [0..<k] @ drop k (s ! i)" using t i by simp
    have kl: "k < length (t ! i)" using ti k row by simp
    have upd: "(t ! i)[k := xs ! g k] = map (\<lambda>j. xs ! g j) [0..<Suc k] @ drop (Suc k) (s ! i)"
      unfolding ti using k row by (intro fill_step) simp
    show "\<exists>t'. ?body (int k) t = Inr t' \<and> ?P (Suc k) t'"
      using src[OF k] it kl upd t by simp
  qed
  then show ?thesis using row by simp
qed

lemma ToSlice_rows:
  assumes "r m = int a" and "c m = int b" and "length (vals m) = a * b"
  shows "ToSlice F m = Inr (map (\<lambda>i. map (\<lambda>j. vals m ! (i * b + j)) [0..<b]) [0..<a])"
proof -
  let ?rowf = "\<lambda>i. map (\<lambda>j. vals m ! (i * b + j)) [0..<b]"
  let ?s0 = "replicate a ([] :: 'a list)"
  let ?body = "\<lambda>i s.
         and_then (make_slice F (int b) (int b)) (\<lambda>row.
           and_then (assign s i row) (\<lambda>s.
             for_range (int (length row)) (\<lambda>j s.
               and_then (index (vals m) (i * int b + j)) (\<lambda>x.
                 and_then (index s i) (\<lambda>row.
                   and_then (assign row j x) (\<lambda>row. assign s i row)))) s))"
  let ?P = "\<lambda>k s. s = map ?rowf [0..<k] @ drop k ?s0"
  have "\<exists>t'. for_range (int a) ?body ?s0 = Inr t' \<and> ?P a t'"
  proof (rule for_range_rule[where P = ?P])
    show "?P 0 ?s0" by simp
  next
    fix k t assume k: "k < a" and t: "?P k t"
    have kt: "k < length t" using t k by simp
    let ?t1 = "t[k := replicate b (fzero F)]"
    have k1: "k < length ?t1" using kt by simp
    have r1: "length (?t1 ! k) = b" using kt by simp
    have src: "\<And>j. j < b \<Longrightarrow> int k * int b + int j = int (k * b + j) \<and> k * b + j < length (vals m)"
      using k assms by (simp add: cell_lt)
    have inner: "for_range (int b) (\<lambda>j s.
               and_then (index (vals m) (int k * int b + j)) (\<lambda>x.
                 and_then (index s (int k)) (\<lambda>row.
                   and_then (assign row j x) (\<lambda>row. assign s (int k) row)))) ?t1
         = Inr (?t1[k := ?rowf k])"
      by (rule row_fill[where h = "\<lambda>j. int k * int b + j" and g = "\<lambda>j. k * b + j", OF k1 r1 src])
    have "t[k := ?rowf k] = map ?rowf [0..<Suc k] @ drop (Suc k) ?s0"
      unfolding t using k by (intro fill_step) simp
    then show "\<exists>t'. ?body (int k) t = Inr t' \<and> ?P (Suc k) t'"
      using kt inner by simp
  qed
  then show ?thesis using assms by (simp add: ToSlice_def)
qed


lemma write_back:
  assumes cw: "c m2 = int w" and len: "length (vals m2) = a * w" and q: "length q = a"
    and rows: "\<And>i. i < a \<Longrightarrow> length (q ! i) = w"
  shows "for_range (int a) (\<lambda>i. for_range (int w) (\<lambda>j m'.
            and_then (index q i) (\<lambda>row.
              and_then (index row j) (\<lambda>e. put m' (i * c m' + j) e)))) m2
         = Inr (m2\<lparr>vals := map (\<lambda>p. q ! (p div w) ! (p mod w)) [0..<a * w]\<rparr>)"
proof -
  let ?g = "\<lambda>p. q ! (p div w) ! (p mod w)"
  let ?P = "\<lambda>p m'. m' = m2\<lparr>vals := map ?g [0..<p] @ drop p (vals m2)\<rparr>"
  let ?body = "\<lambda>i j m'. and_then (index q i) (\<lambda>row.
              and_then (index row j) (\<lambda>e. put m' (i * c m' + j) e))"
  have "\<exists>t'. for_range (int a) (\<lambda>i. for_range (int w) (?body i)) m2 = Inr t' \<and> ?P (a * w) t'"
  proof (rule for_range_nested_rule[where P = ?P])
    show "?P 0 m2" by simp
  next
    fix i j t assume i: "i < a" and j: "j < w" and t: "?P (i * w + j) t"
    have p: "i * w + j < a * w" using i j by (rule cell_lt)
    have ct: "int i * c t + int j = int (i * w + j)" using t cw by simp
    have lt: "i * w + j < length (vals t)" using t p len by simp
    have g: "?g (i * w + j) = q ! i ! j" using j by simp
    have upd: "(map ?g [0..<i * w + j] @ drop (i * w + j) (vals m2))[i * w + j := ?g (i * w + j)]
            = map ?g [0..<Suc (i * w + j)] @ drop (Suc (i * w + j)) (vals m2)"
      using p len by (intro fill_step) simp
    show "\<exists>t'. ?body (int i) (int j) t = Inr t' \<and> ?P (Suc (i * w + j)) t'"
      unfolding ct using i j q rows[OF i] put_nat[OF lt] upd g t by simp
  qed
  then show ?thesis using len by simp
qed

lemma append_rows:
  assumes ys: "length q \<le> length ys"
  shows "for_range (int (length q)) (\<lambda>i q'.
            and_then (index q' i) (\<lambda>row.
              and_then (index ys i) (\<lambda>e. assign q' i (f row e)))) q
         = Inr (map (\<lambda>i. f (q ! i) (ys ! i)) [0..<length q])"
proof -
  let ?g = "\<lambda>i. f (q ! i) (ys ! i)"
  let ?P = "\<lambda>k q'. q' = map ?g [0..<k] @ drop k q"
  let ?body = "\<lambda>i q'. and_then (index q' i) (\<lambda>row.
              and_then (index ys i) (\<lambda>e. assign q' i (f row e)))"
  have "\<exists>t'. for_range (int (length q)) ?body q = Inr t' \<and> ?P (length q) t'"
  proof (rule for_range_rule[where P = ?P])
    show "?P 0 q" by simp
  next
    fix k t assume k: "k < length q" and t: "?P k t"
    have kt: "k < length t" using t k by simp
    have tk: "t ! k = q ! k" using t k by (simp add: nth_append)
    have ky: "k < length ys" using k ys by simp
    have upd: "t[k := ?g k] = map ?g [0..<Suc k] @ drop (Suc k) q"
      unfolding t using k by (rule fill_step)
    show "\<exists>t'. ?body (int k) t = Inr t' \<and> ?P (Suc k) t'"
      using kt ky tk upd by simp
  qed
  then show ?thesis by simp
qed

lemma AppendCol_vals:
  assumes "r m = int a" and "c m = int b" and "length (vals m) = a * b" and "length v = a"
  shows "AppendCol F m v = Inr \<lparr>r = int a, c = int (Suc b),
           vals = map (\<lambda>p. if p mod Suc b < b then vals m ! ((p div Suc b) * b + p mod Suc b)
                            else v ! (p div Suc b)) [0..<a * Suc b]\<rparr>"
proof -
  let ?rowf = "\<lambda>i. map (\<lambda>j. vals m ! (i * b + j)) [0..<b]"
  let ?q = "map ?rowf [0..<a]"
  let ?q' = "map (\<lambda>i. ?q ! i @ [v ! i]) [0..<a]"
  let ?m2 = "m\<lparr>c := int (Suc b), vals := vals m @ v\<rparr>"
  have ts: "ToSlice F m = Inr ?q" using assms(1-3) by (rule ToSlice_rows)
  have ap: "for_range (int (length ?q)) (\<lambda>i q'.
            and_then (index q' i) (\<lambda>row.
              and_then (index v i) (\<lambda>e. assign q' i (row @ [e])))) ?q
         = Inr (map (\<lambda>i. ?q ! i @ [v ! i]) [0..<length ?q])"
    by (rule append_rows[where f = "\<lambda>row e. row @ [e]"]) (simp add: assms)
  have wb: "for_range (int a) (\<lambda>i. for_range (int (Suc b)) (\<lambda>j m'.
            and_then (index ?q' i) (\<lambda>row.
              and_then (index row j) (\<lambda>e. put m' (i * c m' + j) e)))) ?m2
         = Inr (?m2\<lparr>vals := map (\<lambda>p. ?q' ! (p div Suc b) ! (p mod Suc b)) [0..<a * Suc b]\<rparr>)"
    by (rule write_back) (simp_all add: assms)
  have "map (\<lambda>p. ?q' ! (p div Suc b) ! (p mod Suc b)) [0..<a * Suc b]
      = map (\<lambda>p. if p mod Suc b < b then vals m ! ((p div Suc b) * b + p mod Suc b)
                            else v ! (p div Suc b)) [0..<a * Suc b]"
  proof (rule map_cong[OF refl])
    fix p assume "p \<in> set [0..<a * Suc b]"
    then have p: "p < a * Suc b" by simp
    have d: "p div Suc b < a" using p by (simp add: less_mult_imp_div_less)
    have "p mod Suc b < Suc b" by simp
    then have "p mod Suc b < b \<or> p mod Suc b = b" by linarith
    then show "?q' ! (p div Suc b) ! (p mod Suc b)
         = (if p mod Suc b < b then vals m ! ((p div Suc b) * b + p mod Suc b) else v ! (p div Suc b))"
      using d by (auto simp: nth_append)
  qed
  then show ?thesis
    using ts ap wb assms by (simp add: AppendCol_def del: of_nat_Suc upt_Suc) (simp add: add.commute)
qed


lemma Vals_copy: "Vals F m = Inr (vals m)"
  by (simp add: Vals_def copy_def)

lemma Concat_vals:
  assumes "r m = int a" and "c m = int b" and "length (vals m) = a * b"
    and "r n = int a" and "c n = int b2" and "length (vals n) = a * b2"
  shows "Concat F m n = Inr \<lparr>r = int a, c = int (b + b2),
           vals = map (\<lambda>p. if p mod (b + b2) < b
                            then vals m ! ((p div (b + b2)) * b + p mod (b + b2))
                            else vals n ! ((p div (b + b2)) * b2 + (p mod (b + b2) - b)))
                    [0..<a * (b + b2)]\<rparr>"
proof -
  let ?w = "b + b2"
  let ?q = "map (\<lambda>i. map (\<lambda>j. vals m ! (i * b + j)) [0..<b]) [0..<a]"
  let ?rs = "map (\<lambda>i. map (\<lambda>j. vals n ! (i * b2 + j)) [0..<b2]) [0..<a]"
  let ?q' = "map (\<lambda>i. ?q ! i @ ?rs ! i) [0..<a]"
  let ?m2 = "m\<lparr>c := int ?w, vals := vals m @ vals n\<rparr>"
  have ts: "ToSlice F m = Inr ?q" using assms(1-3) by (rule ToSlice_rows)
  have tr: "ToSlice F n = Inr ?rs" using assms(4-6) by (rule ToSlice_rows)
  have ap: "for_range (int (length ?q)) (\<lambda>i q'.
            and_then (index q' i) (\<lambda>row.
              and_then (index ?rs i) (\<lambda>row'. assign q' i (row @ row')))) ?q
         = Inr (map (\<lambda>i. ?q ! i @ ?rs ! i) [0..<length ?q])"
    by (rule append_rows[where f = "\<lambda>row row'. row @ row'"]) simp
  have wb: "for_range (int a) (\<lambda>i. for_range (int ?w) (\<lambda>j m'.
            and_then (index ?q' i) (\<lambda>row.
              and_then (index row j) (\<lambda>e. put m' (i * c m' + j) e)))) ?m2
         = Inr (?m2\<lparr>vals := map (\<lambda>p. ?q' ! (p div ?w) ! (p mod ?w)) [0..<a * ?w]\<rparr>)"
    by (rule write_back) (simp_all add: assms distrib_left)
  have "map (\<lambda>p. ?q' ! (p div ?w) ! (p mod ?w)) [0..<a * ?w]
      = map (\<lambda>p. if p mod ?w < b then vals m ! ((p div ?w) * b + p mod ?w)
                   else vals n ! ((p div ?w) * b2 + (p mod ?w - b))) [0..<a * ?w]"
  proof (rule map_cong[OF refl])
    fix p assume "p \<in> set [0..<a * ?w]"
    then have p: "p < a * ?w" by simp
    then have w0: "0 < ?w" by (cases "?w") auto
    have d: "p div ?w < a" using p w0 by (simp add: less_mult_imp_div_less)
    have md: "p mod ?w < ?w" using w0 by simp
    show "?q' ! (p div ?w) ! (p mod ?w)
         = (if p mod ?w < b then vals m ! ((p div ?w) * b + p mod ?w)
            else vals n ! ((p div ?w) * b2 + (p mod ?w - b)))"
    proof (cases "p mod ?w < b")
      case True
      then show ?thesis using d by (simp add: nth_append)
    next
      case False
      then have "p mod ?w - b < b2" using md by linarith
      then show ?thesis using d False by (simp add: nth_append)
    qed
  qed
  then show ?thesis
    using ts tr ap wb assms by (simp add: Concat_def Vals_copy)
qed

lemma copy_loop:
  assumes h: "\<And>i. i < length v \<Longrightarrow> h (int i) = int (off + i)"
    and len: "off + length v \<le> length nv0"
  shows "for_range (int (length v)) (\<lambda>i nv. and_then (index v i) (assign nv (h i))) nv0
         = Inr (take off nv0 @ v @ drop (off + length v) nv0)"
proof -
  let ?P = "\<lambda>k nv. nv = take off nv0 @ take k v @ drop (off + k) nv0"
  have "\<exists>t'. for_range (int (length v)) (\<lambda>i nv. and_then (index v i) (assign nv (h i))) nv0 = Inr t'
          \<and> ?P (length v) t'"
  proof (rule for_range_rule[where P = ?P])
    show "?P 0 nv0" by simp
  next
    fix k t assume k: "k < length v" and t: "?P k t"
    have lt: "off + k < length t" using t k len by simp
    have "t[off + k := v ! k] = take off nv0 @ take (Suc k) v @ drop (off + Suc k) nv0"
      unfolding t using k len
      by (simp add: list_update_append take_Suc_conv_app_nth min_def flip: Cons_nth_drop_Suc)
    then show "\<exists>t'. and_then (index v (int k)) (assign t (h (int k))) = Inr t' \<and> ?P (Suc k) t'"
      using k h[OF k] assign_nat[OF lt] by simp
  qed
  then show ?thesis by simp
qed

lemma AppendRow_vals:
  assumes "c m = int (length v)"
  shows "AppendRow F cap m v = Inr (m\<lparr>vals := vals m @ v, r := r m + 1\<rparr>)"
proof (cases "cap < int (length (vals m)) + int (length v)")
  case False
  then show ?thesis using assms by (simp add: AppendRow_def)
next
  case True
  let ?n = "length (vals m)"
  let ?nv0 = "replicate (?n + length v) (fzero F)"
  have mk: "make_slice F (int ?n + int (length v)) (int ?n + int (length v) * 2) = Inr ?nv0"
    by (simp add: make_slice_def nat_add_distrib)
  have l1: "for_range (int ?n) (\<lambda>i nv. and_then (index (vals m) i) (assign nv i)) ?nv0
         = Inr (take 0 ?nv0 @ vals m @ drop (0 + ?n) ?nv0)"
    by (rule copy_loop) simp_all
  let ?nv1 = "vals m @ replicate (length v) (fzero F)"
  have nv1: "take 0 ?nv0 @ vals m @ drop (0 + ?n) ?nv0 = ?nv1" by simp
  have l2: "for_range (int (length v)) (\<lambda>i nv. and_then (index v i) (assign nv (int ?n + i))) ?nv1
         = Inr (take ?n ?nv1 @ v @ drop (?n + length v) ?nv1)"
    by (rule copy_loop) simp_all
  show ?thesis using True assms mk l1 l2 unfolding nv1 by (simp add: AppendRow_def)
qed

lemma SetAll_vals: "SetAll m val = Inr (m\<lparr>vals := replicate (length (vals m)) val\<rparr>)"
proof -
  let ?P = "\<lambda>k m'. m' = m\<lparr>vals := map (\<lambda>_. val) [0..<k] @ drop k (vals m)\<rparr>"
  have "\<exists>t'. for_range (int (length (vals m))) (\<lambda>i m'. put m' i val) m = Inr t'
          \<and> ?P (length (vals m)) t'"
  proof (rule for_range_rule[where P = ?P])
    show "?P 0 m" by simp
  next
    fix k t assume k: "k < length (vals m)" and t: "?P k t"
    have lt: "k < length (vals t)" using t k by simp
    have "(map (\<lambda>_. val) [0..<k] @ drop k (vals m))[k := val]
            = map (\<lambda>_. val) [0..<Suc k] @ drop (Suc k) (vals m)"
      using k by (rule fill_step)
    then show "\<exists>t'. put t (int k) val = Inr t' \<and> ?P (Suc k) t'"
      using put_nat[OF lt] t by simp
  qed
  then show ?thesis by (simp add: SetAll_def map_replicate_const)
qed

subsection \<open>Operations that keep the shape invariant\<close>

lemma New_len: "New F dims = Inr m \<Longrightarrow> int (length (vals m)) = r m * c m"
  by (cases "(F, dims)" rule: New.cases) (auto simp: make_slice_def split: if_splits)

lemma wrap64_id: "- (2 ^ 63) \<le> x \<Longrightarrow> x < 2 ^ 63 \<Longrightarrow> wrap64 x = x"
  by (simp add: wrap64_def)

lemma Reshape_len:
  assumes "Reshape m rows cols = Inr m'"
  shows "vals m' = vals m \<and> r m' = rows \<and> c m' = cols
           \<and> wrap64 (r m' * c m') = wrap64 (r m * c m)"
  using assms by (auto simp: Reshape_def split: if_splits)

lemma Reshape_shaped:
  assumes "shaped m" and "length (vals m) < 2 ^ 63"
    and "0 \<le> rows" and "0 \<le> cols" and "rows * cols < 2 ^ 63"
  shows "Reshape m rows cols =
     (if rows * cols = r m * c m then Inr (m\<lparr>r := rows, c := cols\<rparr>) else Inl ShapeMismatch)
   \<and> (rows * cols = r m * c m \<longrightarrow> shaped (m\<lparr>r := rows, c := cols\<rparr>))"
proof -
  have "0 \<le> rows * cols" using assms(3,4) by simp
  then have 1: "wrap64 (rows * cols) = rows * cols" using assms(5) by (intro wrap64_id) simp_all
  have "r m * c m = int (length (vals m))" using assms(1) by (simp add: shaped_def)
  then have "0 \<le> r m * c m" "r m * c m < 2 ^ 63" using assms(2) by simp_all
  then have 2: "wrap64 (r m * c m) = r m * c m" by (intro wrap64_id) simp_all
  show ?thesis using assms(1,3,4) by (auto simp: Reshape_def 1 2 shaped_def)
qed

lemma Reshape_wraps:
  "Reshape \<lparr>r = 2, c = 3, vals = [Fin 0, Fin 1, Fin 2, Fin 3, Fin 4, Fin 5]\<rparr>
       11 1676976733973595602
     = Inr \<lparr>r = 11, c = 1676976733973595602, vals = [Fin 0, Fin 1, Fin 2, Fin 3, Fin 4, Fin 5]\<rparr>"
  by (simp add: Reshape_def wrap64_def)

lemma Set_len:
  assumes "Set m i j v = Inr m'"
  shows "length (vals m') = length (vals m) \<and> r m' = r m \<and> c m' = c m"
  using assms by (auto simp: Set_def assign_def split: if_splits sum.splits)

lemma AppendRow_shaped:
  assumes "shaped m" and "c m = int (length v)"
  shows "\<exists>m'. AppendRow F cap m v = Inr m' \<and> shaped m' \<and> r m' = r m + 1 \<and> c m' = c m"
  using assms AppendRow_vals[OF assms(2), of F cap] by (simp add: shaped_def distrib_right)

lemma AppendCol_shaped:
  assumes "shaped m" and "r m = int (length v)"
  shows "\<exists>m'. AppendCol F m v = Inr m' \<and> shaped m' \<and> r m' = r m \<and> c m' = c m + 1"
proof -
  obtain a b where ab: "r m = int a" "c m = int b" "length (vals m) = a * b"
    using assms(1) by (rule shapedE)
  have v: "length v = a" using assms(2) ab by simp
  show ?thesis using AppendCol_vals[OF ab v, of F] ab by (simp add: shaped_def distrib_left)
qed

lemma Concat_shaped:
  assumes "shaped m" and "shaped n" and "r m = r n"
  shows "\<exists>m'. Concat F m n = Inr m' \<and> shaped m' \<and> r m' = r m \<and> c m' = c m + c n"
proof -
  obtain a b where ab: "r m = int a" "c m = int b" "length (vals m) = a * b"
    using assms(1) by (rule shapedE)
  obtain a' b2 where ab2: "r n = int a'" "c n = int b2" "length (vals n) = a' * b2"
    using assms(2) by (rule shapedE)
  have a': "a' = a" using assms(3) ab ab2 by simp
  show ?thesis using Concat_vals[OF ab ab2[unfolded a'], of F] ab ab2 by (simp add: shaped_def)
qed

subsection \<open>FromData on flat and on rectangular nested data\<close>

lemma FromData_flat:
  "FromData F (Slice1D v) [] = Inr \<lparr>r = 1, c = int (length v), vals = v\<rparr>"
  "FromData F (Slice1D v) [a] =
     (if a = int (length v) then Inr \<lparr>r = a, c = 1, vals = v\<rparr> else Inl ShapeMismatch)"
  "FromData F (Slice1D v) [a, b] =
     (if a * b = int (length v) then Inr \<lparr>r = a, c = b, vals = v\<rparr> else Inl ShapeMismatch)"
  by (simp_all add: make_slice_def copy_def)

lemma for_each_cong:
  assumes "\<And>k t. k \<in> set ks \<Longrightarrow> f (int k) t = g (int k) t"
  shows "for_each ks f s = for_each ks g s"
  using assms by (induction ks arbitrary: s) (auto split: sum.splits)

lemma for_range_cong:
  assumes "\<And>k t. k < n \<Longrightarrow> f (int k) t = g (int k) t"
  shows "for_range (int n) f s = for_range (int n) g s"
  unfolding for_range_def by (rule for_each_cong) (simp add: assms)

lemma fill2D_rect:
  assumes ne: "v \<noteq> []" and rect: "\<And>row. row \<in> set v \<Longrightarrow> length row = w"
    and len: "length v * w \<le> length vs"
  shows "fill2D v vs
         = Inr (map (\<lambda>p. v ! (p div w) ! (p mod w)) [0..<length v * w] @ drop (length v * w) vs)"
proof -
  let ?a = "length v"
  let ?g = "\<lambda>p. v ! (p div w) ! (p mod w)"
  let ?P = "\<lambda>p vs'. vs' = map ?g [0..<p] @ drop p vs"
  let ?body = "\<lambda>i j vs'. assign vs' (i * int w + j) (v ! nat i ! nat j)"
  have l0: "len0 v = Inr (int w)"
    using ne rect by (cases v) (auto simp: len0_def)
  have eq: "fill2D v vs = for_range (int ?a) (\<lambda>i. for_range (int w) (?body i)) vs"
    unfolding fill2D_def
  proof (rule for_range_cong)
    fix k t assume k: "k < ?a"
    then have "length (v ! k) = w" using rect by simp
    then show "for_range (int (length (v ! nat (int k))))
            (\<lambda>j vs. and_then (len0 v) (\<lambda>w. assign vs (int k * w + j) (v ! nat (int k) ! nat j))) t
          = for_range (int w) (?body (int k)) t"
      using l0 by simp
  qed
  have "\<exists>t'. for_range (int ?a) (\<lambda>i. for_range (int w) (?body i)) vs = Inr t' \<and> ?P (?a * w) t'"
  proof (rule for_range_nested_rule[where P = ?P])
    show "?P 0 vs" by simp
  next
    fix i j t assume i: "i < ?a" and j: "j < w" and t: "?P (i * w + j) t"
    have p: "i * w + j < ?a * w" using i j by (rule cell_lt)
    have lt: "i * w + j < length t" using t p len by simp
    have pos: "int i * int w + int j = int (i * w + j)" by simp
    have g: "?g (i * w + j) = v ! i ! j" using j by simp
    have "(map ?g [0..<i * w + j] @ drop (i * w + j) vs)[i * w + j := ?g (i * w + j)]
            = map ?g [0..<Suc (i * w + j)] @ drop (Suc (i * w + j)) vs"
      using p len by (intro fill_step) simp
    then show "\<exists>t'. ?body (int i) (int j) t = Inr t' \<and> ?P (Suc (i * w + j)) t'"
      unfolding pos using assign_nat[OF lt] g t by simp
  qed
  then show ?thesis using eq by simp
qed

lemma FromData_nested:
  assumes ne: "v \<noteq> []" and rect: "\<And>row. row \<in> set v \<Longrightarrow> length row = w"
  shows "FromData F (Slice2D v) [] =
           Inr \<lparr>r = int (length v), c = int w,
                 vals = map (\<lambda>p. v ! (p div w) ! (p mod w)) [0..<length v * w]\<rparr>"
    and "FromData F (Slice2D v) [x, y] =
           (if x = int (length v) \<and> y = int w
            then Inr \<lparr>r = int (length v), c = int w,
                   vals = map (\<lambda>p. v ! (p div w) ! (p mod w)) [0..<length v * w]\<rparr>
            else Inl ShapeMismatch)"
    and "x * 2 \<noteq> int (length v) * int w \<Longrightarrow> FromData F (Slice2D v) [x] = Inl ShapeMismatch"
    and "x * 2 = int (length v) * int w \<Longrightarrow> x \<noteq> 1 \<Longrightarrow>
         FromData F (Slice2D v) [x] =
           Inr \<lparr>r = int (length v), c = int w,
                 vals = map (\<lambda>p. v ! (p div w) ! (p mod w)) [0..<length v * w]
                        @ replicate (nat (x * x) - length v * w) (fzero F)\<rparr>"
proof -
  let ?a = "length v"
  have l0: "len0 v = Inr (int w)"
    using ne rect by (cases v) (auto simp: len0_def)
  have e: "int ?a * int w = int (?a * w)" by simp
  have mk: "make_slice F (int ?a * int w) (int ?a * int w * 2) = Inr (replicate (?a * w) (fzero F))"
    unfolding e by (simp add: make_slice_def del: of_nat_mult)
  have fl: "fill2D v (replicate (?a * w) (fzero F))
      = Inr (map (\<lambda>p. v ! (p div w) ! (p mod w)) [0..<?a * w] @ drop (?a * w) (replicate (?a * w) (fzero F)))"
    by (rule fill2D_rect[OF ne rect]) simp_all
  show "FromData F (Slice2D v) [] =
           Inr \<lparr>r = int ?a, c = int w,
                 vals = map (\<lambda>p. v ! (p div w) ! (p mod w)) [0..<?a * w]\<rparr>"
    using l0 mk fl by simp
  show "FromData F (Slice2D v) [x, y] =
           (if x = int ?a \<and> y = int w
            then Inr \<lparr>r = int ?a, c = int w,
                   vals = map (\<lambda>p. v ! (p div w) ! (p mod w)) [0..<?a * w]\<rparr>
            else Inl ShapeMismatch)"
    using l0 mk fl by simp
  show "x * 2 \<noteq> int ?a * int w \<Longrightarrow> FromData F (Slice2D v) [x] = Inl ShapeMismatch"
    using l0 by simp
  show "FromData F (Slice2D v) [x] =
           Inr \<lparr>r = int ?a, c = int w,
                 vals = map (\<lambda>p. v ! (p div w) ! (p mod w)) [0..<?a * w]
                        @ replicate (nat (x * x) - ?a * w) (fzero F)\<rparr>"
    if x2: "x * 2 = int ?a * int w" and x1: "x \<noteq> 1"
  proof -
    have x0: "0 \<le> x" using x2 by (smt (verit) mult_nonneg_nonneg of_nat_0_le_iff)
    then have "x = 0 \<or> 2 \<le> x" using x1 by linarith
    then have ge: "x * 2 \<le> x * x" using x0 by (auto intro: mult_left_mono)
    have le: "?a * w \<le> nat (x * x)"
      using ge x2 by (metis nat_int nat_mono of_nat_mult)
    have mk1: "make_slice F (x * x) (x * x * 2) = Inr (replicate (nat (x * x)) (fzero F))"
      by (simp add: make_slice_def)
    have fl1: "fill2D v (replicate (nat (x * x)) (fzero F))
      = Inr (map (\<lambda>p. v ! (p div w) ! (p mod w)) [0..<?a * w]
             @ drop (?a * w) (replicate (nat (x * x)) (fzero F)))"
      by (rule fill2D_rect[OF ne rect]) (simp_all add: le)
    show ?thesis using l0 x2 mk1 fl1 by simp
  qed
qed

subsection \<open>The copy-returning Add and the older Div\<close>

lemma Copy_vals:
  assumes "shaped m"
  shows "Copy F m = Inr \<lparr>r = r m, c = c m, vals = vals m\<rparr>"
proof -
  obtain a b where ab: "r m = int a" "c m = int b" "length (vals m) = a * b"
    using assms by (rule shapedE)
  show ?thesis using New2[of F a b] ab by (simp add: Copy_def copy_def)
qed

lemma zip_loop:
  assumes len: "length ys = length (vals n)"
  shows "for_range (int (length (vals n)))
           (\<lambda>i n'. and_then (index (vals n') i) (\<lambda>x. and_then (index ys i) (\<lambda>y. put n' i (f x y)))) n
         = Inr (n\<lparr>vals := map (\<lambda>i. f (vals n ! i) (ys ! i)) [0..<length (vals n)]\<rparr>)"
proof -
  let ?g = "\<lambda>i. f (vals n ! i) (ys ! i)"
  let ?P = "\<lambda>k n'. n' = n\<lparr>vals := map ?g [0..<k] @ drop k (vals n)\<rparr>"
  have "\<exists>t'. for_range (int (length (vals n)))
           (\<lambda>i n'. and_then (index (vals n') i) (\<lambda>x. and_then (index ys i) (\<lambda>y. put n' i (f x y)))) n
           = Inr t' \<and> ?P (length (vals n)) t'"
  proof (rule for_range_rule[where P = ?P])
    show "?P 0 n" by simp
  next
    fix k t assume k: "k < length (vals n)" and t: "?P k t"
    have lt: "k < length (vals t)" using t k by simp
    have cur: "vals t ! k = vals n ! k" using t k by (simp add: nth_append)
    have ky: "k < length ys" using k len by simp
    have "(map ?g [0..<k] @ drop k (vals n))[k := ?g k] = map ?g [0..<Suc k] @ drop (Suc k) (vals n)"
      using k by (rule fill_step)
    then show "\<exists>t'. and_then (index (vals t) (int k)) (\<lambda>x.
                 and_then (index ys (int k)) (\<lambda>y. put t (int k) (f x y))) = Inr t' \<and> ?P (Suc k) t'"
      using lt ky cur put_nat[OF lt] t by simp
  qed
  then show ?thesis by simp
qed

lemma Add_v004_fresh_copy:
  assumes "shaped m" and "shaped n"
  shows "Add_v004 F m (Matrix n) =
     (if r n = r m \<and> c n = c m
      then Inr \<lparr>r = r m, c = c m,
             vals = map (\<lambda>i. fadd F (vals m ! i) (vals n ! i)) [0..<length (vals m)]\<rparr>
      else Inl ShapeMismatch)"
proof (cases "r n = r m \<and> c n = c m")
  case False
  then show ?thesis using Copy_vals[OF assms(1), of F] by (auto simp: Add_v004_def arith_v004_def)
next
  case True
  let ?c = "\<lparr>r = r m, c = c m, vals = vals m\<rparr>"
  have len: "length (vals n) = length (vals ?c)"
    using shaped_same_length[OF assms] True by simp
  show ?thesis
    using True Copy_vals[OF assms(1), of F] zip_loop[OF len, of "fadd F"]
    by (simp add: Add_v004_def arith_v004_def)
qed

lemma Div_v006_divides:
  assumes p: "\<sigma> p = Some m" and q: "\<sigma> q = Some n" and "shaped m" and "shaped n"
    and same: "r m = r n" "c m = c n"
    and nz: "\<not> (\<exists>x\<in>set (vals n). feq F x (fzero F))"
  shows "Div_v006 F \<sigma> p q =
     Inr (\<sigma>(p \<mapsto> m\<lparr>vals := map (\<lambda>i. fdiv F (vals m ! i) (vals n ! i)) [0..<length (vals m)]\<rparr>), p)"
proof -
  have len: "length (vals n) = length (vals m)"
    using shaped_same_length[OF assms(3,4)] same by simp
  have rc: "r n * c n = int (length (vals m))" using assms(3) same by (simp add: shaped_def)
  show ?thesis
    using p q same nz mat_loop[OF p q len, of "fdiv F"]
    by (simp add: Div_v006_def Any_def any_loop_iff rc)
qed

subsection \<open>The divisor of Std\<close>

lemma fold_loop:
  assumes "\<And>k. k < n \<Longrightarrow> h (int k) = int (g k) \<and> g k < length xs"
  shows "for_range (int n) (\<lambda>i s. and_then (index xs (h i)) (\<lambda>x. Inr (f s x))) s0
         = Inr (foldl f s0 (map (\<lambda>k. xs ! g k) [0..<n]))"
proof -
  let ?P = "\<lambda>k s. s = foldl f s0 (map (\<lambda>k. xs ! g k) [0..<k])"
  have "\<exists>t'. for_range (int n) (\<lambda>i s. and_then (index xs (h i)) (\<lambda>x. Inr (f s x))) s0 = Inr t'
          \<and> ?P n t'"
  proof (rule for_range_rule[where P = ?P])
    show "?P 0 s0" by simp
  next
    fix k t assume k: "k < n" and t: "?P k t"
    show "\<exists>t'. and_then (index xs (h (int k))) (\<lambda>x. Inr (f t x)) = Inr t' \<and> ?P (Suc k) t'"
      using assms[OF k] t by simp
  qed
  then show ?thesis by simp
qed

lemma Avg_axis:
  assumes "shaped m"
  shows "i < nat (r m) \<Longrightarrow>
           Avg F m [0, int i] = Inr (fdiv F (foldl (fadd F) (fzero F) (row_of m i)) (float64 F (c m)))"
    and "j < nat (c m) \<Longrightarrow>
           Avg F m [1, int j] = Inr (fdiv F (foldl (fadd F) (fzero F) (col_of m j)) (float64 F (r m)))"
proof -
  obtain a b where ab: "r m = int a" "c m = int b" "length (vals m) = a * b"
    using assms by (rule shapedE)
  show "Avg F m [0, int i] = Inr (fdiv F (foldl (fadd F) (fzero F) (row_of m i)) (float64 F (c m)))"
    if "i < nat (r m)"
  proof -
    have i: "i < a" using that ab by simp
    have "for_range (int b) (\<lambda>k sum. and_then (index (vals m) (int i * int b + k))
              (\<lambda>x. Inr (fadd F sum x))) (fzero F)
          = Inr (foldl (fadd F) (fzero F) (map (\<lambda>k. vals m ! (i * b + k)) [0..<b]))"
      by (rule fold_loop[where g = "\<lambda>k. i * b + k"]) (simp add: ab cell_lt i)
    then show ?thesis using i ab by (simp add: row_of_def)
  qed
  show "Avg F m [1, int j] = Inr (fdiv F (foldl (fadd F) (fzero F) (col_of m j)) (float64 F (r m)))"
    if "j < nat (c m)"
  proof -
    have j: "j < b" using that ab by simp
    have "for_range (int a) (\<lambda>k sum. and_then (index (vals m) (k * int b + int j))
              (\<lambda>x. Inr (fadd F sum x))) (fzero F)
          = Inr (foldl (fadd F) (fzero F) (map (\<lambda>k. vals m ! (k * b + j)) [0..<a]))"
      by (rule fold_loop[where g = "\<lambda>k. k * b + j"]) (simp add: ab cell_lt j)
    then show ?thesis using j ab by (simp add: col_of_def)
  qed
qed

lemma Std_divisor:
  assumes "shaped m"
  shows "i < nat (r m) \<Longrightarrow> Avg F m [0, int i] = Inr avg \<Longrightarrow>
           Std F m [0, int i] =
             Inr (fsqrt F (fdiv F
                    (foldl (\<lambda>s x. fadd F s (fmul F (fsub F avg x) (fsub F avg x))) (fzero F) (row_of m i))
                    (float64 F (r m * c m))))"
    and "j < nat (c m) \<Longrightarrow> Avg F m [1, int j] = Inr avg \<Longrightarrow>
           Std F m [1, int j] =
             Inr (fsqrt F (fdiv F
                    (foldl (\<lambda>s x. fadd F s (fmul F (fsub F avg x) (fsub F avg x))) (fzero F) (col_of m j))
                    (float64 F (r m * c m))))"
proof -
  obtain a b where ab: "r m = int a" "c m = int b" "length (vals m) = a * b"
    using assms by (rule shapedE)
  let ?sq = "\<lambda>s x. fadd F s (fmul F (fsub F avg x) (fsub F avg x))"
  show "Std F m [0, int i] =
             Inr (fsqrt F (fdiv F (foldl ?sq (fzero F) (row_of m i)) (float64 F (r m * c m))))"
    if "i < nat (r m)" and avg: "Avg F m [0, int i] = Inr avg"
  proof -
    have i: "i < a" using that ab by simp
    have "for_range (int b) (\<lambda>k sum. and_then (index (vals m) (int i * int b + k))
              (\<lambda>x. Inr (?sq sum x))) (fzero F)
          = Inr (foldl ?sq (fzero F) (map (\<lambda>k. vals m ! (i * b + k)) [0..<b]))"
      by (rule fold_loop[where g = "\<lambda>k. i * b + k"]) (simp add: ab cell_lt i)
    then show ?thesis using i ab avg by (simp add: row_of_def del: Avg.simps)
  qed
  show "Std F m [1, int j] =
             Inr (fsqrt F (fdiv F (foldl ?sq (fzero F) (col_of m j)) (float64 F (r m * c m))))"
    if "j < nat (c m)" and avg: "Avg F m [1, int j] = Inr avg"
  proof -
    have j: "j < b" using that ab by simp
    have "for_range (int a) (\<lambda>k sum. and_then (index (vals m) (k * int b + int j))
              (\<lambda>x. Inr (?sq sum x))) (fzero F)
          = Inr (foldl ?sq (fzero F) (map (\<lambda>k. vals m ! (k * b + j)) [0..<a]))"
      by (rule fold_loop[where g = "\<lambda>k. k * b + j"]) (simp add: ab cell_lt j)
    then show ?thesis using j ab avg by (simp add: col_of_def del: Avg.simps)
  qed
qed

subsection \<open>Scalar operands and Row\<close>

lemma scalar_loop:
  assumes p: "\<sigma> p = Some m"
  shows "for_range (int (length (vals m))) (step_scalar f p v) \<sigma>
           = Inr (\<sigma>(p \<mapsto> m\<lparr>vals := map (\<lambda>i. f (vals m ! i) v) [0..<length (vals m)]\<rparr>))"
proof -
  let ?g = "\<lambda>i. f (vals m ! i) v"
  let ?P = "\<lambda>k \<sigma>'. \<sigma>' = \<sigma>(p \<mapsto> m\<lparr>vals := map ?g [0..<k] @ drop k (vals m)\<rparr>)"
  have "\<exists>t'. for_range (int (length (vals m))) (step_scalar f p v) \<sigma> = Inr t' \<and> ?P (length (vals m)) t'"
  proof (rule for_range_rule[where P = ?P])
    show "?P 0 \<sigma>" using p by (simp add: fun_upd_idem)
  next
    fix k t assume k: "k < length (vals m)" and t: "?P k t"
    let ?mk = "m\<lparr>vals := map ?g [0..<k] @ drop k (vals m)\<rparr>"
    have tp: "t p = Some ?mk" using t by simp
    have lk: "k < length (vals ?mk)" using k by simp
    have cur: "vals ?mk ! k = vals m ! k" using k by (simp add: nth_append)
    have upd: "(map ?g [0..<k] @ drop k (vals m))[k := ?g k] = map ?g [0..<Suc k] @ drop (Suc k) (vals m)"
      using k by (rule fill_step)
    show "\<exists>t'. step_scalar f p v (int k) t = Inr t' \<and> ?P (Suc k) t'"
      using tp k lk cur upd t by (simp add: step_scalar_def)
  qed
  then show ?thesis by simp
qed

lemma arith_Float64:
  assumes "\<sigma> p = Some m"
  shows "arith f \<sigma> p (Float64 v) =
     Inr (\<sigma>(p \<mapsto> m\<lparr>vals := map (\<lambda>i. f (vals m ! i) v) [0..<length (vals m)]\<rparr>), p)"
  using assms scalar_loop[where \<sigma> = \<sigma> and p = p and m = m and f = f and v = v, OF assms]
  by (simp add: arith_def)

lemma Row_rows:
  assumes "shaped m"
  shows "Row F m x =
     (if - r m \<le> x \<and> x < r m
      then Inr \<lparr>r = 1, c = c m, vals = row_of m (nat (if 0 \<le> x then x else r m + x))\<rparr>
      else Inl IndexOutOfRange)"
proof (cases "- r m \<le> x \<and> x < r m")
  case False
  then show ?thesis by (auto simp: Row_def)
next
  case True
  obtain a b where ab: "r m = int a" "c m = int b" "length (vals m) = a * b"
    using assms by (rule shapedE)
  define row where "row = nat (if 0 \<le> x then x else r m + x)"
  have row: "row < a" "int row = (if 0 \<le> x then x else r m + x)"
    using True ab by (auto simp: row_def)
  have src: "\<And>i. i < b \<Longrightarrow> row * b + i < length (vals m)"
    using row ab by (simp add: cell_lt)
  let ?v0 = "\<lparr>r = 1, c = int b, vals = replicate (1 * b) (fzero F)\<rparr>"
  have new: "New F [1, c m] = Inr ?v0" using New2[of F 1 b] ab by simp
  have loop: "for_range (int b) (\<lambda>i v. and_then (index (vals m) (int row * int b + i)) (put v i)) ?v0
           = Inr (?v0\<lparr>vals := map (\<lambda>i. vals m ! (row * b + i)) [0..<b]\<rparr>)"
    by (rule fill_loop) (simp_all add: src)
  show ?thesis
  proof (cases "0 \<le> x")
    case True
    then show ?thesis
      using \<open>- r m \<le> x \<and> x < r m\<close> new loop row ab
      by (simp add: Row_def row_def row_of_def)
  next
    case False
    then show ?thesis
      using \<open>- r m \<le> x \<and> x < r m\<close> new loop row ab
      by (simp add: Row_def row_def row_of_def)
  qed
qed

subsection \<open>The shape invariant\<close>

text \<open>
  C6 (code defect).  \<^verbatim>\<open>FromData\<close> on a 2-by-3 nested source with the single dimension
  3 completes and returns a Mat whose \<^verbatim>\<open>Dims()\<close> are \<open>(2, 3)\<close> and whose \<^verbatim>\<open>Vals()\<close>
  has \<open>3*3 = 9\<close> values: the length of the values is not rows times columns.  The
  other operations modelled here keep the invariant (the lemmas of the preceding
  subsections), \<^verbatim>\<open>Reshape\<close> up to the wrap-around of its two products.
\<close>

theorem FromData_breaks_shape_invariant:
  "FromData ideal (Slice2D [[Fin 1, Fin 2, Fin 3], [Fin 4, Fin 5, Fin 6]]) [3]
     = Inr \<lparr>r = 2, c = 3, vals = [Fin 1, Fin 2, Fin 3, Fin 4, Fin 5, Fin 6, Fin 0, Fin 0, Fin 0]\<rparr>
   \<and> Dims \<lparr>r = 2, c = 3, vals = [Fin 1, Fin 2, Fin 3, Fin 4, Fin 5, Fin 6, Fin 0, Fin 0, Fin 0]\<rparr>
       = (2, 3)
   \<and> Vals ideal \<lparr>r = 2, c = 3, vals = [Fin 1, Fin 2, Fin 3, Fin 4, Fin 5, Fin 6, Fin 0, Fin 0, Fin 0]\<rparr>
       = Inr [Fin 1, Fin 2, Fin 3, Fin 4, Fin 5, Fin 6, Fin 0, Fin 0, Fin 0]
   \<and> \<not> shaped \<lparr>r = 2, c = 3, vals = [Fin 1, Fin 2, Fin 3, Fin 4, Fin 5, Fin 6, Fin 0, Fin 0, Fin 0]\<rparr>"
  by (simp add: len0_def fill2D_def for_range_numeral_2 for_range_numeral_3 assign_def
      make_slice_def ideal_def eval_nat_numeral shaped_def Dims_def Vals_copy)

end
